theory Spec2Isabelle
  imports Main "HOL-Library.Product_Lexorder" "HOL-Library.Multiset"
begin

text \<open>
  The offline queue and the synchronisation of the pass maker: the table of pending
  operations (lib/dexie.ts), the sync engine that drains it (lib/sync.ts), the routes the
  engine sends the operations to (\<open>PUT /api/passes/update\<close>,
  \<open>PATCH /api/passes/status\<close>), the batch reconciliation route
  (\<open>POST /api/sync\<close>) and the dashboard's manual sync handler.  Each function is
  translated from its source; what the functions call outside the repository (the MongoDB
  collection, the Dexie table, \<open>fetch\<close>) is modelled by what the call does.
\<close>

section \<open>Data model\<close>

text \<open>
  A \<open>Date\<close> is an instant, the number of milliseconds since the epoch; two dates
  compare as these numbers do.  JSON and BSON values are the scalars the passes and the
  payloads hold.  A document is a finite map from field names to values: an absent key
  is JavaScript's \<open>undefined\<close>.
\<close>

type_synonym timestamp = int

datatype jsval = JNull | JStr string | JNum int | JDate timestamp

type_synonym document = "string \<rightharpoonup> jsval"

text \<open>
  The \<open>passes\<close> collection, a table keyed by \<open>passId\<close> (lib/models/pass.ts:
  "Unique: VIS-0001").  The key is the document's \<open>passId\<close> field; the document
  holds the other fields.
\<close>

type_synonym collection = "string \<rightharpoonup> document"

datatype op_type = CreatePass | UpdatePass | CreateEvent | UpdateStatus

text \<open>
  An operation as \<open>POST /api/sync\<close> receives it, \<open>SyncOperationSchema\<close> of
  app/api/sync/route.ts.  The \<open>payload\<close> is \<open>z.any()\<close>: \<open>None\<close> is a payload
  that is null or absent; any other payload is the document of its fields (a number or a
  boolean has none).  \<open>createdAt\<close> arrives as the ISO string of a date and is the
  instant that date is.
\<close>

record SyncOperation =
  op_id :: nat
  type :: op_type
  passId :: "string option"
  eventId :: "string option"
  payload :: "document option"
  createdAt :: timestamp
  retryCount :: nat

text \<open>lib/dexie.ts, \<open>PendingOperation\<close>: an operation of the device's queue.  Every
  operation the device queues has an object as its payload.\<close>

record PendingOperation =
  op_id :: nat
  type :: op_type
  passId :: "string option"
  eventId :: "string option"
  payload :: document
  createdAt :: timestamp
  retryCount :: nat

section \<open>The store's primitives\<close>

text \<open>\<open>collection.findOne({ passId })\<close>: pass ids are strings, so any other filter
  value (undefined, null, a number) matches no document.\<close>

definition findOne :: "collection \<Rightarrow> jsval option \<Rightarrow> document option" where
  "findOne db q = (case q of Some (JStr p) \<Rightarrow> db p | _ \<Rightarrow> None)"

text \<open>\<open>collection.updateOne({ passId }, { $set: upd })\<close>: the new collection and
  \<open>matchedCount\<close>.\<close>

definition updateOne :: "collection \<Rightarrow> jsval option \<Rightarrow> document \<Rightarrow> collection \<times> nat" where
  "updateOne db q upd =
     (case q of
        Some (JStr p) \<Rightarrow>
          (case db p of
             None \<Rightarrow> (db, 0)
           | Some d \<Rightarrow> (db(p \<mapsto> d ++ upd), 1))
      | _ \<Rightarrow> (db, 0))"

text \<open>
  \<open>new Date(v)\<close> for a stored value; \<open>None\<close> is an Invalid Date.  A stored date
  is itself; a number is the instant of that many milliseconds when it is within the
  range of dates; null is the epoch; an absent value is invalid.  A string is parsed:
  \<open>parse\<close> is the runtime's \<open>Date.parse\<close>, a parameter of the model, which gives the
  instant a date string denotes and nothing for any other string.
\<close>

definition max_time :: int where
  "max_time = 8640000000000000"

definition toDate :: "(string \<Rightarrow> timestamp option) \<Rightarrow> jsval option \<Rightarrow> timestamp option" where
  "toDate parse v =
     (case v of
        Some (JDate t) \<Rightarrow> Some t
      | Some (JNum n) \<Rightarrow> (if \<bar>n\<bar> \<le> max_time then Some n else None)
      | Some (JStr s) \<Rightarrow> parse s
      | Some JNull \<Rightarrow> Some 0
      | None \<Rightarrow> None)"

text \<open>\<open>currentTimestamp > opTimestamp\<close>: a comparison with an Invalid Date is false.\<close>

definition date_gt :: "timestamp option \<Rightarrow> timestamp \<Rightarrow> bool" where
  "date_gt cur t = (case cur of Some c \<Rightarrow> c > t | None \<Rightarrow> False)"

section \<open>The batch reconciliation handler, app/api/sync/route.ts\<close>

text \<open>The template string \<open>`Pass ${op.passId} not found`\<close>.\<close>

definition not_found_message :: "string option \<Rightarrow> string" where
  "not_found_message p =
     ''Pass '' @ (case p of Some s \<Rightarrow> s | None \<Rightarrow> ''undefined'') @ '' not found''"

text \<open>
  What a handler throws: an \<open>Error\<close> with the message the handler gives it, or the
  \<open>TypeError\<close> of the runtime when the handler reads a field of a payload that is null
  or absent (the message of that one is the runtime's).
\<close>

datatype thrown = Error string | TypeError

text \<open>A handler either throws (\<open>Inl\<close>) or returns, leaving the collection as \<open>Inr\<close>
  gives it.  \<open>processUpdatePass\<close> reads the payload when it destructures it, after
  the comparison of the timestamps.\<close>

definition processUpdatePass ::
    "(string \<Rightarrow> timestamp option) \<Rightarrow> collection \<Rightarrow> SyncOperation \<Rightarrow> thrown + collection" where
  "processUpdatePass parse db op =
     (case findOne db (map_option JStr (SyncOperation.passId op)) of
        None \<Rightarrow> Inl (Error (not_found_message (SyncOperation.passId op)))
      | Some currentPass \<Rightarrow>
          (let opTimestamp = SyncOperation.createdAt op;
               currentTimestamp = toDate parse (currentPass ''updatedAt'')
           in if date_gt currentTimestamp opTimestamp then Inr db
              else
                (case SyncOperation.payload op of
                   None \<Rightarrow> Inl TypeError
                 | Some given \<Rightarrow>
                     (let updateData = given |` (- {''passId''});
                          (db', matchedCount) =
                             updateOne db (map_option JStr (SyncOperation.passId op))
                               (updateData(''updatedAt'' \<mapsto> JDate opTimestamp))
                      in if matchedCount = 0
                         then Inl (Error (not_found_message (SyncOperation.passId op)))
                         else Inr db'))))"

definition processCreatePass ::
    "(string \<Rightarrow> timestamp option) \<Rightarrow> collection \<Rightarrow> SyncOperation \<Rightarrow> thrown + collection" where
  "processCreatePass parse db op =
     Inl (Error ''Create pass operations should use /api/passes/create-batch'')"

text \<open>\<open>$set: { status: op.payload.status, ... }\<close>: an undefined value is stored as
  null.\<close>

definition stored :: "jsval option \<Rightarrow> jsval" where
  "stored v = (case v of None \<Rightarrow> JNull | Some x \<Rightarrow> x)"

text \<open>\<open>processUpdateStatus\<close> reads \<open>op.payload.status\<close> when it builds the update,
  after the comparison of the timestamps.\<close>

definition processUpdateStatus ::
    "(string \<Rightarrow> timestamp option) \<Rightarrow> collection \<Rightarrow> SyncOperation \<Rightarrow> thrown + collection" where
  "processUpdateStatus parse db op =
     (case findOne db (map_option JStr (SyncOperation.passId op)) of
        None \<Rightarrow> Inl (Error (not_found_message (SyncOperation.passId op)))
      | Some currentPass \<Rightarrow>
          (let opTimestamp = SyncOperation.createdAt op;
               currentTimestamp = toDate parse (currentPass ''updatedAt'')
           in if date_gt currentTimestamp opTimestamp then Inr db
              else
                (case SyncOperation.payload op of
                   None \<Rightarrow> Inl TypeError
                 | Some given \<Rightarrow>
                     (let updateData =
                            [''status'' \<mapsto> stored (given ''status''),
                             ''updatedAt'' \<mapsto> JDate opTimestamp,
                             ''usedAt'' \<mapsto>
                               (if given ''status'' = Some (JStr ''used'')
                                then JDate opTimestamp else JNull)];
                          (db', matchedCount) =
                             updateOne db (map_option JStr (SyncOperation.passId op)) updateData
                      in if matchedCount = 0
                         then Inl (Error (not_found_message (SyncOperation.passId op)))
                         else Inr db'))))"

definition processCreateEvent ::
    "(string \<Rightarrow> timestamp option) \<Rightarrow> collection \<Rightarrow> SyncOperation \<Rightarrow> thrown + collection" where
  "processCreateEvent parse db op =
     Inl (Error ''Create event operations should use /api/events/create'')"

text \<open>The \<open>switch\<close> of \<open>POST\<close>.\<close>

definition processOperation ::
    "(string \<Rightarrow> timestamp option) \<Rightarrow> collection \<Rightarrow> SyncOperation \<Rightarrow> thrown + collection" where
  "processOperation parse db op =
     (case SyncOperation.type op of
        UpdatePass \<Rightarrow> processUpdatePass parse db op
      | CreatePass \<Rightarrow> processCreatePass parse db op
      | UpdateStatus \<Rightarrow> processUpdateStatus parse db op
      | CreateEvent \<Rightarrow> processCreateEvent parse db op)"

text \<open>The response body of \<open>POST /api/sync\<close>; an entry of \<open>errors\<close> is the
  operation's \<open>id\<close> with what was thrown, whose message the response carries.\<close>

record results =
  success_srv :: bool
  processed :: nat
  failed_srv :: nat
  errors_srv :: "(nat \<times> thrown) list"

text \<open>The \<open>for\<close> loop of \<open>POST\<close>: the \<open>try\<close> around each operation counts it
  as processed, or catches its error, counts it as failed and goes on.\<close>

fun process_all ::
    "(string \<Rightarrow> timestamp option) \<Rightarrow> collection \<Rightarrow> results \<Rightarrow> SyncOperation list
       \<Rightarrow> collection \<times> results" where
  "process_all parse db res [] = (db, res)"
| "process_all parse db res (op # ops) =
     (case processOperation parse db op of
        Inr db' \<Rightarrow> process_all parse db' (res\<lparr>processed := processed res + 1\<rparr>) ops
      | Inl e \<Rightarrow>
          process_all parse db
            (res\<lparr>failed_srv := failed_srv res + 1,
                 errors_srv := errors_srv res @ [(SyncOperation.op_id op, e)]\<rparr>) ops)"

definition POST ::
    "(string \<Rightarrow> timestamp option) \<Rightarrow> collection \<Rightarrow> SyncOperation list \<Rightarrow> collection \<times> results" where
  "POST parse db operations =
     (let (db', res) =
            process_all parse db
              \<lparr>success_srv = True, processed = 0, failed_srv = 0, errors_srv = []\<rparr> operations
      in (db', res\<lparr>success_srv := (failed_srv res = 0)\<rparr>))"

section \<open>The visitor update endpoint, app/api/passes/update/route.ts\<close>

text \<open>What a route answers: the HTTP status, the \<open>error\<close> field of the JSON body and
  its \<open>pass\<close> object, when it has them.\<close>

record http_response =
  status :: nat
  error_field :: "string option"
  pass_field :: "document option"

text \<open>\<open>!passId\<close> for a JSON value.\<close>

definition falsy :: "jsval option \<Rightarrow> bool" where
  "falsy v = (v = None \<or> v = Some JNull \<or> v = Some (JStr []) \<or> v = Some (JNum 0))"

text \<open>
  Modelled from the spec: the options of the MongoDB client (\<open>getDb\<close>, lib/db.ts) are
  not among the sources; under the driver's defaults a field that is \<open>undefined\<close> in
  a \<open>$set\<close> is written as null, which is what \<open>stored\<close> does.

  \<open>PUT\<close> takes the server's clock (\<open>new Date()\<close>), the collection and the request's
  JSON body.  The key of the collection is the \<open>passId\<close> the response reports.
\<close>

definition PUT :: "timestamp \<Rightarrow> collection \<Rightarrow> document \<Rightarrow> http_response \<times> collection" where
  "PUT now db body =
     (let passId = body ''passId''; name = body ''name''; mobile = body ''mobile'';
          city = body ''city''; age = body ''age''
      in if falsy passId
         then (\<lparr>status = 400, error_field = Some ''Pass ID is required'', pass_field = None\<rparr>, db)
         else
           (case findOne db passId of
              None \<Rightarrow>
                (\<lparr>status = 404, error_field = Some ''Pass not found'', pass_field = None\<rparr>, db)
            | Some existingPass \<Rightarrow>
                (let (db', matchedCount) =
                       updateOne db passId
                         [''name'' \<mapsto> stored name, ''mobile'' \<mapsto> stored mobile,
                          ''city'' \<mapsto> stored city, ''age'' \<mapsto> stored age,
                          ''updatedAt'' \<mapsto> JDate now]
                 in if matchedCount = 0
                    then (\<lparr>status = 404, error_field = Some ''Pass not found'',
                           pass_field = None\<rparr>, db')
                    else
                      (\<lparr>status = 200, error_field = None,
                        pass_field =
                          map_option
                            (\<lambda>updatedPass.
                               (updatedPass |`
                                  {''status'', ''name'', ''mobile'', ''city'', ''age'', ''updatedAt''})
                               (''passId'' \<mapsto> stored passId))
                            (findOne db' passId)\<rparr>, db'))))"

section \<open>The status endpoint, \<open>PATCH /api/passes/status\<close>\<close>

text \<open>
  The route the sync engine sends \<open>update-status\<close> operations to (in the sources
  it follows app/api/passes/check-visitor-cards/route.ts).  \<open>authenticated\<close> is whether
  \<open>getCurrentUser()\<close> finds a user.  \<open>modifiedCount\<close> is 0 when the three fields
  written already hold the values written.
\<close>

definition PATCH :: "bool \<Rightarrow> timestamp \<Rightarrow> collection \<Rightarrow> document \<Rightarrow> http_response \<times> collection" where
  "PATCH authenticated now db body =
     (if \<not> authenticated
      then (\<lparr>status = 401, error_field = Some ''Unauthorized'', pass_field = None\<rparr>, db)
      else
        (let passId = body ''passId''; st = body ''status''
         in if falsy passId
            then (\<lparr>status = 400, error_field = Some ''Pass ID is required'',
                   pass_field = None\<rparr>, db)
            else if st \<noteq> Some (JStr ''used'') \<and> st \<noteq> Some (JStr ''unused'')
            then (\<lparr>status = 400,
                   error_field = Some ''Status must be either \"used\" or \"unused\"'',
                   pass_field = None\<rparr>, db)
            else
              (case findOne db passId of
                 None \<Rightarrow>
                   (\<lparr>status = 404, error_field = Some ''Pass not found'', pass_field = None\<rparr>, db)
               | Some existingPass \<Rightarrow>
                   if existingPass ''status'' = Some (JStr ''used'') \<and> st = Some (JStr ''used'')
                   then (\<lparr>status = 409, error_field = Some ''Pass is already marked as used'',
                          pass_field = Some existingPass\<rparr>, db)
                   else
                     (let usedAt = (if st = Some (JStr ''used'') then JDate now else JNull);
                          updateData =
                            [''status'' \<mapsto> stored st, ''updatedAt'' \<mapsto> JDate now,
                             ''usedAt'' \<mapsto> usedAt];
                          modifiedCount =
                            (if existingPass ''status'' = Some (stored st) \<and>
                                existingPass ''updatedAt'' = Some (JDate now) \<and>
                                existingPass ''usedAt'' = Some usedAt
                             then 0 else (1::nat));
                          (db', matchedCount) = updateOne db passId updateData
                      in if modifiedCount = 0
                         then (\<lparr>status = 500, error_field = Some ''Failed to update pass status'',
                                pass_field = None\<rparr>, db')
                         else (\<lparr>status = 200, error_field = None,
                                pass_field = findOne db' passId\<rparr>, db')))))"

section \<open>The operation queue, lib/dexie.ts\<close>

text \<open>
  The table \<open>pendingOps: '++id, type, passId, createdAt'\<close>: its rows, and the key
  generator of the auto-incremented primary key \<open>id\<close>.  An empty table gives its first
  row the key 1.
\<close>

record pendingOps_table =
  rows :: "PendingOperation list"
  nextId :: nat

definition empty_table :: pendingOps_table where
  "empty_table = \<lparr>rows = [], nextId = 1\<rparr>"

text \<open>\<open>db.pendingOps.add(operation)\<close>: the operation comes without an \<open>id\<close>
  (\<open>Omit<PendingOperation, 'id'>\<close>), the table gives it the next key and returns it.\<close>

definition queueOperation :: "pendingOps_table \<Rightarrow> PendingOperation \<Rightarrow> pendingOps_table \<times> nat" where
  "queueOperation t operation =
     (\<lparr>rows = rows t @ [operation\<lparr>op_id := nextId t\<rparr>], nextId = nextId t + 1\<rparr>, nextId t)"

text \<open>
  \<open>db.pendingOps.orderBy('createdAt').toArray()\<close> walks the index on \<open>createdAt\<close>.
  An IndexedDB index holds its records in ascending order of the index key, and records
  with equal keys in ascending order of the primary key.
\<close>

definition getPendingOperations :: "pendingOps_table \<Rightarrow> PendingOperation list" where
  "getPendingOperations t = sort_key (\<lambda>op. (createdAt op, op_id op)) (rows t)"

definition getPendingOperationsCount :: "pendingOps_table \<Rightarrow> nat" where
  "getPendingOperationsCount t = length (rows t)"

definition removePendingOperation :: "pendingOps_table \<Rightarrow> nat \<Rightarrow> pendingOps_table" where
  "removePendingOperation t i = t\<lparr>rows := filter (\<lambda>op. op_id op \<noteq> i) (rows t)\<rparr>"

definition updatePendingOperationRetryCount ::
    "pendingOps_table \<Rightarrow> nat \<Rightarrow> nat \<Rightarrow> pendingOps_table" where
  "updatePendingOperationRetryCount t i rc =
     t\<lparr>rows := map (\<lambda>op. if op_id op = i then op\<lparr>retryCount := rc\<rparr> else op) (rows t)\<rparr>"

text \<open>The calls a client makes on the table, and a run of them from a given table.\<close>

datatype queue_call =
    Enqueue PendingOperation
  | Remove nat
  | SetRetryCount nat nat

fun apply_call :: "pendingOps_table \<Rightarrow> queue_call \<Rightarrow> pendingOps_table" where
  "apply_call t (Enqueue operation) = fst (queueOperation t operation)"
| "apply_call t (Remove i) = removePendingOperation t i"
| "apply_call t (SetRetryCount i rc) = updatePendingOperationRetryCount t i rc"

definition queue_calls :: "queue_call list \<Rightarrow> pendingOps_table" where
  "queue_calls cs = foldl apply_call empty_table cs"

section \<open>The sync engine, lib/sync.ts\<close>

record SyncError =
  operationId :: nat
  error :: string
  retryable :: bool

record SyncResult =
  success :: bool
  synced :: nat
  failed :: nat
  errors :: "SyncError list"

definition MAX_RETRIES :: nat where
  "MAX_RETRIES = 3"

definition RETRY_DELAY_MS :: nat where
  "RETRY_DELAY_MS = 1000"

text \<open>The arguments of \<open>fetch\<close>: the URL, the HTTP method and the JSON body.\<close>

record request =
  endpoint :: string
  http_method :: string
  body :: document

text \<open>\<open>JSON.stringify({ passId: op.passId, ...op.payload })\<close>: a \<open>passId\<close> of the
  payload overrides the operation's, and an undefined \<open>passId\<close> leaves no key.\<close>

definition with_passId :: "PendingOperation \<Rightarrow> document" where
  "with_passId op =
     (case passId op of None \<Rightarrow> Map.empty | Some p \<Rightarrow> [''passId'' \<mapsto> JStr p]) ++ payload op"

text \<open>The request each of \<open>syncUpdatePass\<close>, \<open>syncCreatePass\<close>, \<open>syncUpdateStatus\<close>
  and \<open>syncCreateEvent\<close> sends, and the message each throws when the response has no
  \<open>error\<close> of its own.\<close>

definition request_of :: "PendingOperation \<Rightarrow> request" where
  "request_of op =
     (case type op of
        UpdatePass \<Rightarrow>
          \<lparr>endpoint = ''/api/passes/update'', http_method = ''PUT'', body = with_passId op\<rparr>
      | CreatePass \<Rightarrow>
          \<lparr>endpoint = ''/api/passes/create-batch'', http_method = ''POST'', body = payload op\<rparr>
      | UpdateStatus \<Rightarrow>
          \<lparr>endpoint = ''/api/passes/status'', http_method = ''PATCH'', body = with_passId op\<rparr>
      | CreateEvent \<Rightarrow>
          \<lparr>endpoint = ''/api/events/create'', http_method = ''POST'', body = payload op\<rparr>)"

definition failure_message :: "op_type \<Rightarrow> string" where
  "failure_message t =
     (case t of
        UpdatePass \<Rightarrow> ''Failed to update pass''
      | CreatePass \<Rightarrow> ''Failed to create pass''
      | UpdateStatus \<Rightarrow> ''Failed to update pass status''
      | CreateEvent \<Rightarrow> ''Failed to create event'')"

text \<open>\<open>response.ok\<close>.\<close>

definition ok :: "http_response \<Rightarrow> bool" where
  "ok r = (200 \<le> status r \<and> status r \<le> 299)"

text \<open>
  The network is a parameter: \<open>fetch\<close> takes the state of the world beyond the device
  and a request, and either rejects (\<open>Inl\<close>, the message of the error thrown) or
  resolves with a response, leaving a new state.

  \<open>processSingleOperation\<close> returns \<open>Inl\<close> of the message of the error it throws, or
  \<open>Inr ()\<close>.  \<open>data.error || '...'\<close> takes the default for an absent or empty
  \<open>error\<close>.
\<close>

definition processSingleOperation ::
    "('n \<Rightarrow> request \<Rightarrow> (string + http_response) \<times> 'n) \<Rightarrow> 'n \<Rightarrow> PendingOperation
       \<Rightarrow> (string + unit) \<times> 'n" where
  "processSingleOperation fetch n op =
     (let (r, n') = fetch n (request_of op)
      in case r of
           Inl msg \<Rightarrow> (Inl msg, n')
         | Inr response \<Rightarrow>
             if \<not> ok response
             then (Inl (case error_field response of
                          None \<Rightarrow> failure_message (type op)
                        | Some e \<Rightarrow> if e = [] then failure_message (type op) else e), n')
             else (Inr (), n'))"

text \<open>
  The state of a drain: the table, the world beyond the device, the result being built,
  the delays awaited so far (\<open>setTimeout\<close>, in milliseconds), and the operations
  dispatched so far with the requests sent for them.
\<close>

record 'n sync_state =
  pendingOps :: pendingOps_table
  net :: 'n
  result :: SyncResult
  waits :: "nat list"
  dispatched :: "(nat \<times> request) list"

text \<open>The body of the \<open>for\<close> loop of \<open>syncPendingOperations\<close>, for one operation
  of the list read at the start.\<close>

definition sync_step ::
    "('n \<Rightarrow> request \<Rightarrow> (string + http_response) \<times> 'n) \<Rightarrow> 'n sync_state \<Rightarrow> PendingOperation
       \<Rightarrow> 'n sync_state" where
  "sync_step fetch st op =
     (let (r, n') = processSingleOperation fetch (net st) op;
          st1 = st\<lparr>net := n', dispatched := dispatched st @ [(op_id op, request_of op)]\<rparr>
      in case r of
           Inr _ \<Rightarrow>
             st1\<lparr>pendingOps := removePendingOperation (pendingOps st1) (op_id op),
                 result := (result st1)\<lparr>synced := synced (result st1) + 1\<rparr>\<rparr>
         | Inl errorMessage \<Rightarrow>
             (let retryable = retryCount op < MAX_RETRIES;
                  st2 = st1\<lparr>result := (result st1)
                          \<lparr>failed := failed (result st1) + 1,
                           errors := errors (result st1) @
                             [\<lparr>operationId = op_id op, error = errorMessage,
                               retryable = retryable\<rparr>]\<rparr>\<rparr>
              in if retryable
                 then st2\<lparr>pendingOps :=
                            updatePendingOperationRetryCount (pendingOps st2) (op_id op)
                              (retryCount op + 1),
                          waits := waits st2 @ [RETRY_DELAY_MS * 2 ^ retryCount op]\<rparr>
                 else st2\<lparr>pendingOps := removePendingOperation (pendingOps st2) (op_id op)\<rparr>))"

text \<open>
  \<open>syncPendingOperations\<close>, with a table that answers every call (a failure of the
  local store, which the outer \<open>catch\<close> turns into \<open>success = false\<close>, is not part of
  this model).
\<close>

definition syncPendingOperations ::
    "('n \<Rightarrow> request \<Rightarrow> (string + http_response) \<times> 'n) \<Rightarrow> pendingOps_table \<Rightarrow> 'n
       \<Rightarrow> 'n sync_state" where
  "syncPendingOperations fetch t n =
     (let st0 = \<lparr>pendingOps = t, net = n,
                 result = \<lparr>success = True, synced = 0, failed = 0, errors = []\<rparr>,
                 waits = [], dispatched = []\<rparr>;
          pendingOps = getPendingOperations t
      in if length pendingOps = 0 then st0
         else
           (let st = foldl (sync_step fetch) st0 pendingOps
            in st\<lparr>result := (result st)\<lparr>success := (failed (result st) = 0)\<rparr>\<rparr>))"

definition triggerManualSync ::
    "('n \<Rightarrow> request \<Rightarrow> (string + http_response) \<times> 'n) \<Rightarrow> pendingOps_table \<Rightarrow> 'n
       \<Rightarrow> 'n sync_state" where
  "triggerManualSync fetch t n = syncPendingOperations fetch t n"

text \<open>Sync invocations one after the other, each on the table and the world the one
  before left.\<close>

fun drains ::
    "('n \<Rightarrow> request \<Rightarrow> (string + http_response) \<times> 'n) \<Rightarrow> nat \<Rightarrow> pendingOps_table \<Rightarrow> 'n
       \<Rightarrow> pendingOps_table \<times> 'n" where
  "drains fetch 0 t n = (t, n)"
| "drains fetch (Suc k) t n =
     (let st = syncPendingOperations fetch t n in drains fetch k (pendingOps st) (net st))"

section \<open>The device and the server behind \<open>fetch\<close>\<close>

text \<open>
  The world beyond the device: whether the device is online (\<open>navigator.onLine\<close>),
  whether its session cookie is valid, the server's clock and the \<open>passes\<close>
  collection.  Offline, \<open>fetch\<close> rejects.  Online, the two routes modelled above answer;
  every other route is the parameter \<open>other\<close>.
\<close>

record world =
  online :: bool
  authenticated :: bool
  clock :: timestamp
  passes :: collection

text \<open>\<open>isOnline()\<close> of lib/dexie.ts, in a browser: \<open>navigator.onLine\<close>.\<close>

definition isOnline :: "world \<Rightarrow> bool" where
  "isOnline w = online w"

definition server_fetch ::
    "(world \<Rightarrow> request \<Rightarrow> http_response \<times> world) \<Rightarrow> world \<Rightarrow> request
       \<Rightarrow> (string + http_response) \<times> world" where
  "server_fetch other w req =
     (if \<not> online w then (Inl ''Failed to fetch'', w)
      else if endpoint req = ''/api/passes/update'' \<and> http_method req = ''PUT''
      then (let (r, db') = PUT (clock w) (passes w) (body req)
            in (Inr r, w\<lparr>passes := db'\<rparr>))
      else if endpoint req = ''/api/passes/status'' \<and> http_method req = ''PATCH''
      then (let (r, db') = PATCH (authenticated w) (clock w) (passes w) (body req)
            in (Inr r, w\<lparr>passes := db'\<rparr>))
      else (let (r, w') = other w req in (Inr r, w')))"

section \<open>The dashboard's "Sync Now" button and its handler\<close>

text \<open>
  The state of the dashboard component that the manual sync reads and writes.
  \<open>offline\<close> is set from \<open>isOnline()\<close> when the component mounts, and by the
  handlers of the browser's online and offline events after that.
\<close>

record dashboard =
  offline :: bool
  pendingOpsCount :: nat
  syncing :: bool
  syncMessage :: "string option"

definition mount :: "world \<Rightarrow> pendingOps_table \<Rightarrow> dashboard" where
  "mount w t =
     \<lparr>offline = (\<not> isOnline w), pendingOpsCount = getPendingOperationsCount t,
      syncing = False, syncMessage = None\<rparr>"

definition handleOnline :: "dashboard \<Rightarrow> pendingOps_table \<Rightarrow> dashboard" where
  "handleOnline ui t = ui\<lparr>offline := False, pendingOpsCount := getPendingOperationsCount t\<rparr>"

definition handleOffline :: "dashboard \<Rightarrow> dashboard" where
  "handleOffline ui = ui\<lparr>offline := True\<rparr>"

text \<open>A number in a template string.\<close>

fun decimal :: "nat \<Rightarrow> string" where
  "decimal n =
     (if n < 10 then [char_of (48 + n)]
      else decimal (n div 10) @ [char_of (48 + n mod 10)])"

text \<open>The handler returns the component's state, the table, the world and the requests
  sent.  After a sync it shows the counts of the result, counts the table again
  (\<open>loadPendingOpsCount\<close>) and clears \<open>syncing\<close>.\<close>

definition handleManualSync ::
    "('n \<Rightarrow> request \<Rightarrow> (string + http_response) \<times> 'n) \<Rightarrow> dashboard \<Rightarrow> pendingOps_table \<Rightarrow> 'n
       \<Rightarrow> dashboard \<times> pendingOps_table \<times> 'n \<times> (nat \<times> request) list" where
  "handleManualSync fetch ui t n =
     (if offline ui
      then (ui\<lparr>syncMessage := Some ''Cannot sync while offline''\<rparr>, t, n, [])
      else if pendingOpsCount ui = 0
      then (ui\<lparr>syncMessage := Some ''No pending operations to sync''\<rparr>, t, n, [])
      else
        (let st = triggerManualSync fetch t n
         in (ui\<lparr>syncMessage :=
                   Some (if success (result st)
                         then ''Successfully synced '' @ decimal (synced (result st)) @
                              '' operations''
                         else ''Synced '' @ decimal (synced (result st)) @ '' operations, '' @
                              decimal (failed (result st)) @ '' failed''),
                 pendingOpsCount := getPendingOperationsCount (pendingOps st),
                 syncing := False\<rparr>,
             pendingOps st, net st, dispatched st)))"

text \<open>
  The component renders the button whose \<open>onClick\<close> is \<open>handleManualSync\<close> inside
  \<open>!offline && pendingOpsCount > 0\<close>, and disables it while \<open>syncing\<close>.  A click
  on a button that is not rendered, or is disabled, calls nothing.
\<close>

definition sync_button_enabled :: "dashboard \<Rightarrow> bool" where
  "sync_button_enabled ui = (\<not> offline ui \<and> pendingOpsCount ui > 0 \<and> \<not> syncing ui)"

definition click_sync_now ::
    "('n \<Rightarrow> request \<Rightarrow> (string + http_response) \<times> 'n) \<Rightarrow> dashboard \<Rightarrow> pendingOps_table \<Rightarrow> 'n
       \<Rightarrow> dashboard \<times> pendingOps_table \<times> 'n \<times> (nat \<times> request) list" where
  "click_sync_now fetch ui t n =
     (if sync_button_enabled ui then handleManualSync fetch ui t n else (ui, t, n, []))"

section \<open>Vocabulary of the properties\<close>

text \<open>An update of a batch that has a payload and targets a pass of the collection, and an
  update that targets a pass the collection does not have.\<close>

definition targets_existing :: "collection \<Rightarrow> SyncOperation \<Rightarrow> bool" where
  "targets_existing db op =
     ((SyncOperation.type op = UpdatePass \<or> SyncOperation.type op = UpdateStatus) \<and>
      SyncOperation.payload op \<noteq> None \<and>
      (case SyncOperation.passId op of Some p \<Rightarrow> db p \<noteq> None | None \<Rightarrow> False))"

definition targets_missing :: "collection \<Rightarrow> SyncOperation \<Rightarrow> bool" where
  "targets_missing db op =
     ((SyncOperation.type op = UpdatePass \<or> SyncOperation.type op = UpdateStatus) \<and>
      (case SyncOperation.passId op of Some p \<Rightarrow> db p = None | None \<Rightarrow> True))"

text \<open>The test of both update handlers, \<open>currentTimestamp > opTimestamp\<close>, for the pass
  found and the operation.\<close>

definition server_is_newer ::
    "(string \<Rightarrow> timestamp option) \<Rightarrow> document \<Rightarrow> SyncOperation \<Rightarrow> bool" where
  "server_is_newer parse cur op =
     date_gt (toDate parse (cur ''updatedAt'')) (SyncOperation.createdAt op)"

text \<open>The collection one operation of a batch leaves, whether it returns or throws, and the
  collection a list of operations leaves, one after the other.\<close>

definition collection_after_one ::
    "(string \<Rightarrow> timestamp option) \<Rightarrow> collection \<Rightarrow> SyncOperation \<Rightarrow> collection" where
  "collection_after_one parse db op =
     (case processOperation parse db op of Inr db' \<Rightarrow> db' | Inl e \<Rightarrow> db)"

definition collection_after ::
    "(string \<Rightarrow> timestamp option) \<Rightarrow> collection \<Rightarrow> SyncOperation list \<Rightarrow> collection" where
  "collection_after parse db ops = foldl (collection_after_one parse) db ops"

text \<open>The keys of the rows increase along the rows and stay below the key generator.\<close>

definition ids_ascending :: "pendingOps_table \<Rightarrow> bool" where
  "ids_ascending t =
     (sorted_wrt (<) (map op_id (rows t)) \<and> list_all (\<lambda>op. op_id op < nextId t) (rows t))"

text \<open>The rows of the table under a key.\<close>

definition entry :: "pendingOps_table \<Rightarrow> nat \<Rightarrow> PendingOperation list" where
  "entry t i = filter (\<lambda>x. op_id x = i) (rows t)"

text \<open>The device asks for a pass the server does not have: it is online, the request names
  a pass, the collection has none under that name and, for a status update, the session
  is valid and the status is one of the two the route accepts.\<close>

definition answers_not_found :: "world \<Rightarrow> PendingOperation \<Rightarrow> bool" where
  "answers_not_found w op =
     (online w \<and> \<not> falsy (with_passId op ''passId'') \<and>
      findOne (passes w) (with_passId op ''passId'') = None \<and>
      (type op = UpdatePass \<or>
       type op = UpdateStatus \<and> authenticated w \<and>
         (with_passId op ''status'' = Some (JStr ''used'') \<or>
          with_passId op ''status'' = Some (JStr ''unused''))))"

text \<open>One field of one pass of a collection.\<close>

definition field_of :: "collection \<Rightarrow> string \<Rightarrow> string \<Rightarrow> jsval option" where
  "field_of db p k = (case db p of None \<Rightarrow> None | Some d \<Rightarrow> d k)"

section \<open>Example data\<close>

text \<open>Passes: one unused, one used, one with all the visitor's fields; and a collection.\<close>

definition pass_unused :: document where
  "pass_unused =
     [''status'' \<mapsto> JStr ''unused'', ''name'' \<mapsto> JStr ''Asha'',
      ''createdAt'' \<mapsto> JDate 10, ''updatedAt'' \<mapsto> JDate 100]"

definition pass_used :: document where
  "pass_used =
     [''status'' \<mapsto> JStr ''used'', ''createdAt'' \<mapsto> JDate 10,
      ''updatedAt'' \<mapsto> JDate 100, ''usedAt'' \<mapsto> JDate 100]"

definition pass_visited :: document where
  "pass_visited =
     [''status'' \<mapsto> JStr ''used'', ''name'' \<mapsto> JStr ''Asha'', ''mobile'' \<mapsto> JStr ''9000000001'',
      ''city'' \<mapsto> JStr ''Goa'', ''age'' \<mapsto> JStr ''31'',
      ''createdAt'' \<mapsto> JDate 10, ''updatedAt'' \<mapsto> JDate 100, ''usedAt'' \<mapsto> JDate 90]"

definition passes0 :: collection where
  "passes0 = [''VIS-0001'' \<mapsto> pass_unused, ''VIS-0002'' \<mapsto> pass_used]"

text \<open>Operations: marking a pass as used, and a visitor's update of two of the four fields.\<close>

definition mark_used :: "nat \<Rightarrow> string \<Rightarrow> timestamp \<Rightarrow> PendingOperation" where
  "mark_used i p t =
     \<lparr>op_id = i, type = UpdateStatus, passId = Some p, eventId = None,
      payload = [''status'' \<mapsto> JStr ''used''], createdAt = t, retryCount = 0\<rparr>"

definition visitor_update :: "nat \<Rightarrow> string \<Rightarrow> timestamp \<Rightarrow> PendingOperation" where
  "visitor_update i p t =
     \<lparr>op_id = i, type = UpdatePass, passId = Some p, eventId = None,
      payload = [''name'' \<mapsto> JStr ''Ravi'', ''city'' \<mapsto> JStr ''Pune''],
      createdAt = t, retryCount = 0\<rparr>"

definition queued_at :: "timestamp \<Rightarrow> PendingOperation" where
  "queued_at t = mark_used 0 ''VIS-0001'' t"

definition update_queued :: PendingOperation where
  "update_queued = visitor_update 1 ''VIS-0001'' 50"

definition update_missing :: PendingOperation where
  "update_missing = visitor_update 1 ''VIS-9999'' 50"

text \<open>An operation of the queue as a batch carries it, and an operation without its
  payload.\<close>

definition posted :: "PendingOperation \<Rightarrow> SyncOperation" where
  "posted op =
     \<lparr>SyncOperation.op_id = op_id op, type = type op, passId = passId op, eventId = eventId op,
      payload = Some (payload op), createdAt = createdAt op, retryCount = retryCount op\<rparr>"


text \<open>A parser of date strings that knows one string, and a pass stored as its JSON
  came, whose \<open>updatedAt\<close> is that string.\<close>

definition parse_example :: "string \<Rightarrow> timestamp option" where
  "parse_example s = (if s = ''1970-01-01T00:00:00.100Z'' then Some 100 else None)"

definition pass_saved :: document where
  "pass_saved =
     [''status'' \<mapsto> JStr ''unused'', ''name'' \<mapsto> JStr ''Asha'',
      ''updatedAt'' \<mapsto> JStr ''1970-01-01T00:00:00.100Z'']"

definition passes_saved :: collection where
  "passes_saved = [''VIS-0004'' \<mapsto> pass_saved]"


definition stale_on_saved :: SyncOperation where
  "stale_on_saved = posted (visitor_update 2 ''VIS-0004'' 99)"


text \<open>A batch whose second operation targets a pass the collection does not have; its
  third is applied, its fourth is older than the pass it targets.\<close>

definition batch0 :: "SyncOperation list" where
  "batch0 = [posted (mark_used 1 ''VIS-0001'' 150), posted (visitor_update 2 ''VIS-9999'' 160),
             posted (visitor_update 3 ''VIS-0001'' 170), posted (mark_used 4 ''VIS-0002'' 50)]"

text \<open>A server with no route but the two modelled, a device that is online, the same device
  offline, and a network on which every request fails.\<close>

definition no_routes :: "world \<Rightarrow> request \<Rightarrow> http_response \<times> world" where
  "no_routes w req = (\<lparr>status = 404, error_field = None, pass_field = None\<rparr>, w)"

definition world0 :: world where
  "world0 = \<lparr>online = True, authenticated = True, clock = 500, passes = passes0\<rparr>"

definition world_offline :: world where
  "world_offline = world0\<lparr>online := False\<rparr>"

definition dead_network :: "unit \<Rightarrow> request \<Rightarrow> (string + http_response) \<times> unit" where
  "dead_network n req = (Inl ''Failed to fetch'', n)"

text \<open>A table with one visitor update of a pass the server has, one with a visitor update of
  a pass it does not have, and a drain about to start on the second.\<close>

definition table1 :: pendingOps_table where
  "table1 = fst (queueOperation empty_table (visitor_update 0 ''VIS-0001'' 50))"

definition table_missing :: pendingOps_table where
  "table_missing = fst (queueOperation empty_table (visitor_update 0 ''VIS-9999'' 50))"

definition state_missing :: "world sync_state" where
  "state_missing =
     \<lparr>pendingOps = table_missing, net = world0,
      result = \<lparr>success = True, synced = 0, failed = 0, errors = []\<rparr>,
      waits = [], dispatched = []\<rparr>"

section \<open>Properties\<close>

declare decimal.simps [simp del]

subsection \<open>The handlers of the batch route on a pass that exists, and on one that does not\<close>

lemma processUpdatePass_found:
  assumes "SyncOperation.passId op = Some p" and "db p = Some cur"
  shows "processUpdatePass parse db op =
     (if server_is_newer parse cur op then Inr db
      else case SyncOperation.payload op of
             None \<Rightarrow> Inl TypeError
           | Some given \<Rightarrow>
               Inr (db(p \<mapsto> (cur ++ given |` (- {''passId''}))
                           (''updatedAt'' \<mapsto> JDate (SyncOperation.createdAt op)))))"
  using assms
  by (simp add: processUpdatePass_def server_is_newer_def findOne_def updateOne_def Let_def
        split: option.splits del: restrict_fun_upd)

lemma processUpdateStatus_found:
  assumes "SyncOperation.passId op = Some p" and "db p = Some cur"
  shows "processUpdateStatus parse db op =
     (if server_is_newer parse cur op then Inr db
      else case SyncOperation.payload op of
             None \<Rightarrow> Inl TypeError
           | Some given \<Rightarrow>
               Inr (db(p \<mapsto> cur ++
                      [''status'' \<mapsto> stored (given ''status''),
                       ''updatedAt'' \<mapsto> JDate (SyncOperation.createdAt op),
                       ''usedAt'' \<mapsto> (if given ''status'' = Some (JStr ''used'')
                                        then JDate (SyncOperation.createdAt op) else JNull)])))"
  using assms
  by (simp add: processUpdateStatus_def server_is_newer_def findOne_def updateOne_def Let_def
        split: option.splits)

lemma processUpdatePass_missing:
  assumes "findOne db (map_option JStr (SyncOperation.passId op)) = None"
  shows "processUpdatePass parse db op = Inl (Error (not_found_message (SyncOperation.passId op)))"
  using assms by (simp add: processUpdatePass_def)

lemma processUpdateStatus_missing:
  assumes "findOne db (map_option JStr (SyncOperation.passId op)) = None"
  shows "processUpdateStatus parse db op = Inl (Error (not_found_message (SyncOperation.passId op)))"
  using assms by (simp add: processUpdateStatus_def)


lemma POST_single_returned:
  assumes "processOperation parse db op = Inr db'"
  shows "POST parse db [op] =
     (db', \<lparr>success_srv = True, processed = 1, failed_srv = 0, errors_srv = []\<rparr>)"
  using assms by (simp add: POST_def)


lemma update_on_found:
  assumes t: "SyncOperation.type op = UpdatePass \<or> SyncOperation.type op = UpdateStatus"
    and p: "SyncOperation.passId op = Some p" and d: "db p = Some cur"
  shows "processOperation parse db op =
     (if server_is_newer parse cur op then Inr db
      else case SyncOperation.payload op of
             None \<Rightarrow> Inl TypeError
           | Some given \<Rightarrow>
               Inr (db(p \<mapsto>
                 (if SyncOperation.type op = UpdatePass
                  then (cur ++ given |` (- {''passId''}))
                         (''updatedAt'' \<mapsto> JDate (SyncOperation.createdAt op))
                  else cur ++
                      [''status'' \<mapsto> stored (given ''status''),
                       ''updatedAt'' \<mapsto> JDate (SyncOperation.createdAt op),
                       ''usedAt'' \<mapsto> (if given ''status'' = Some (JStr ''used'')
                                        then JDate (SyncOperation.createdAt op) else JNull)]))))"
  using t
proof
  assume "SyncOperation.type op = UpdatePass"
  then show ?thesis
    using p d
    by (simp add: processOperation_def processUpdatePass_found [of op p db cur]
          split: option.splits)
next
  assume "SyncOperation.type op = UpdateStatus"
  then show ?thesis
    using p d
    by (simp add: processOperation_def processUpdateStatus_found [of op p db cur]
          split: option.splits)
qed

subsection \<open>Reconciliation by timestamp\<close>



text \<open>On the same pass, whose \<open>updatedAt\<close> is the string of the instant 100, an update
  created at 99 is skipped.\<close>

lemma stale_update_of_saved_pass_is_skipped:
  "SyncOperation.createdAt stale_on_saved = 99 \<and>
   toDate parse_example (pass_saved ''updatedAt'') = Some 100 \<and>
   POST parse_example passes_saved [stale_on_saved] =
     (passes_saved, \<lparr>success_srv = True, processed = 1, failed_srv = 0, errors_srv = []\<rparr>)"
proof -
  have c: "SyncOperation.createdAt stale_on_saved = 99"
    by (simp add: stale_on_saved_def posted_def visitor_update_def)
  have td: "toDate parse_example (pass_saved ''updatedAt'') = Some 100"
    by (simp add: pass_saved_def toDate_def parse_example_def)
  have t: "SyncOperation.type stale_on_saved = UpdatePass \<or>
      SyncOperation.type stale_on_saved = UpdateStatus"
    and p: "SyncOperation.passId stale_on_saved = Some ''VIS-0004''"
    by (simp_all add: stale_on_saved_def posted_def visitor_update_def)
  have d: "passes_saved ''VIS-0004'' = Some pass_saved" by (simp add: passes_saved_def)
  have "processOperation parse_example passes_saved stale_on_saved = Inr passes_saved"
    using update_on_found [of stale_on_saved "''VIS-0004''" passes_saved pass_saved parse_example,
        OF t p d]
    by (simp add: server_is_newer_def td c date_gt_def)
  then have "POST parse_example passes_saved [stale_on_saved] =
     (passes_saved, \<lparr>success_srv = True, processed = 1, failed_srv = 0, errors_srv = []\<rparr>)"
    by (rule POST_single_returned)
  with c td show ?thesis by (intro conjI)
qed


subsection \<open>A second check-in through the batch route\<close>

text \<open>
  C2.  The batch handler at a pass that is already \<open>used\<close> (\<open>usedAt\<close> 100,
  \<open>updatedAt\<close> 100) and an \<open>update-status\<close> to \<open>used\<close> created at 200: the
  operation is applied, \<open>usedAt\<close> becomes 200, and the response counts it as processed
  with no error.
\<close>

theorem used_again_by_sync_is_applied:
  "field_of passes0 ''VIS-0002'' ''status'' = Some (JStr ''used'') \<and>
   field_of passes0 ''VIS-0002'' ''usedAt'' = Some (JDate 100) \<and>
   field_of (fst (POST parse passes0 [posted (mark_used 7 ''VIS-0002'' 200)])) ''VIS-0002'' ''status'' =
     Some (JStr ''used'') \<and>
   field_of (fst (POST parse passes0 [posted (mark_used 7 ''VIS-0002'' 200)])) ''VIS-0002'' ''usedAt'' =
     Some (JDate 200) \<and>
   snd (POST parse passes0 [posted (mark_used 7 ''VIS-0002'' 200)]) =
     \<lparr>success_srv = True, processed = 1, failed_srv = 0, errors_srv = []\<rparr>"
  by (simp add: POST_def processOperation_def field_of_def
        processUpdateStatus_found [where p = "''VIS-0002''" and cur = pass_used]
        server_is_newer_def posted_def
        mark_used_def passes0_def pass_used_def date_gt_def toDate_def stored_def max_time_def)

text \<open>The status endpoint, which the sync engine sends such an operation to, answers the
  same request with 409 and writes nothing.\<close>

lemma PATCH_already_used:
  assumes "b ''passId'' = Some (JStr p)" and "p \<noteq> []"
    and "b ''status'' = Some (JStr ''used'')"
    and "db p = Some cur" and "cur ''status'' = Some (JStr ''used'')"
  shows "PATCH True now db b =
     (\<lparr>status = 409, error_field = Some ''Pass is already marked as used'',
       pass_field = Some cur\<rparr>, db)"
  using assms by (simp add: PATCH_def falsy_def findOne_def)

subsection \<open>The batch loop\<close>

lemma processOperation_dom:
  assumes "processOperation parse db op = Inr db'"
  shows "dom db' = dom db"
proof (cases "findOne db (map_option JStr (SyncOperation.passId op))")
  case None
  with assms show ?thesis
    by (cases "SyncOperation.type op")
      (simp_all add: processOperation_def processUpdatePass_missing processUpdateStatus_missing
         processCreatePass_def processCreateEvent_def)
next
  case (Some cur)
  then obtain p where p: "SyncOperation.passId op = Some p" and d: "db p = Some cur"
    by (cases "SyncOperation.passId op") (simp_all add: findOne_def)
  from assms p d show ?thesis
    by (cases "SyncOperation.type op")
      (auto simp: processOperation_def processUpdatePass_found [of op p db cur]
         processUpdateStatus_found [of op p db cur] processCreatePass_def processCreateEvent_def
         split: if_splits option.splits)
qed

lemma targets_existing_succeeds:
  assumes "targets_existing db op"
  shows "\<exists>db'. processOperation parse db op = Inr db'"
proof -
  from assms obtain p cur where p: "SyncOperation.passId op = Some p" and d: "db p = Some cur"
    by (auto simp: targets_existing_def split: option.splits)
  from assms have t: "SyncOperation.type op = UpdatePass \<or> SyncOperation.type op = UpdateStatus"
    by (simp add: targets_existing_def)
  from assms obtain given where g: "SyncOperation.payload op = Some given"
    by (auto simp: targets_existing_def)
  show ?thesis
    using update_on_found [of op p db cur parse, OF t p d] g by simp
qed

lemma targets_missing_fails:
  assumes "targets_missing db op"
  shows "processOperation parse db op = Inl (Error (not_found_message (SyncOperation.passId op)))"
proof -
  from assms have "findOne db (map_option JStr (SyncOperation.passId op)) = None"
    by (auto simp: targets_missing_def findOne_def split: option.splits)
  moreover from assms
  have "SyncOperation.type op = UpdatePass \<or> SyncOperation.type op = UpdateStatus"
    by (simp add: targets_missing_def)
  ultimately show ?thesis
    by (auto simp: processOperation_def processUpdatePass_missing processUpdateStatus_missing)
qed

lemma same_dom_None:
  assumes "dom db' = dom db"
  shows "(db' p = None) = (db p = None)"
  using assms by (metis domIff)

lemma targets_existing_dom:
  "dom db' = dom db \<Longrightarrow> targets_existing db' op = targets_existing db op"
  by (cases "SyncOperation.passId op") (simp_all add: targets_existing_def same_dom_None [of db' db])

lemma targets_missing_dom:
  "dom db' = dom db \<Longrightarrow> targets_missing db' op = targets_missing db op"
  by (cases "SyncOperation.passId op") (simp_all add: targets_missing_def same_dom_None [of db' db])

lemma process_all_append:
  "process_all parse db res (xs @ ys) =
     (case process_all parse db res xs of (db', res') \<Rightarrow> process_all parse db' res' ys)"
  by (induction xs arbitrary: db res) (simp_all split: sum.splits)

text \<open>The collection a batch leaves is the collection its operations leave one after the
  other.\<close>

lemma process_all_collection:
  "fst (process_all parse db res ops) = collection_after parse db ops"
  unfolding collection_after_def
  by (induction ops arbitrary: db res) (simp_all add: collection_after_one_def split: sum.splits)

lemma POST_collection: "fst (POST parse db ops) = collection_after parse db ops"
  by (simp add: POST_def split_beta process_all_collection)

lemma collection_after_one_dom: "dom (collection_after_one parse db op) = dom db"
  by (cases "processOperation parse db op")
     (simp_all add: collection_after_one_def processOperation_dom)

lemma collection_after_dom: "dom (collection_after parse db ops) = dom db"
  unfolding collection_after_def
  by (induction ops arbitrary: db) (simp_all add: collection_after_one_dom)

lemma collection_after_snoc:
  assumes "i < length ops"
  shows "collection_after parse db (take (Suc i) ops) =
     collection_after_one parse (collection_after parse db (take i ops)) (ops ! i)"
  using assms by (simp add: collection_after_def take_Suc_conv_app_nth)

lemma process_all_existing:
  assumes "list_all (targets_existing db) ops"
  shows "snd (process_all parse db res ops) = res\<lparr>processed := processed res + length ops\<rparr>"
  using assms
proof (induction ops arbitrary: db res)
  case Nil
  show ?case by simp
next
  case (Cons op ops)
  from Cons.prems have e: "targets_existing db op" and r: "list_all (targets_existing db) ops"
    by simp_all
  from targets_existing_succeeds [OF e] obtain db' where s: "processOperation parse db op = Inr db'"
    by blast
  from processOperation_dom [OF s] r have "list_all (targets_existing db') ops"
    by (simp add: targets_existing_dom [of db' db] cong: list.pred_cong)
  from Cons.IH [OF this] s show ?case by simp
qed

lemma process_all_skip_missing:
  assumes "targets_missing db op"
  shows "process_all parse db res (op # ops) =
     process_all parse db (res\<lparr>failed_srv := failed_srv res + 1,
        errors_srv := errors_srv res @
          [(SyncOperation.op_id op, Error (not_found_message (SyncOperation.passId op)))]\<rparr>) ops"
  by (simp add: targets_missing_fails [OF assms])

lemma others_before:
  assumes "k < length ops" and "\<forall>i < length ops. i \<noteq> k \<longrightarrow> P (ops ! i)"
  shows "list_all P (take k ops)"
  using assms by (simp add: list_all_length)

lemma others_after:
  assumes "k < length ops" and "\<forall>i < length ops. i \<noteq> k \<longrightarrow> P (ops ! i)"
  shows "list_all P (drop (Suc k) ops)"
  using assms by (simp add: list_all_length)

lemma batch_results:
  assumes k: "k < length ops"
    and m: "targets_missing db (ops ! k)"
    and e: "\<forall>i < length ops. i \<noteq> k \<longrightarrow> targets_existing db (ops ! i)"
  shows "snd (POST parse db ops) =
           \<lparr>success_srv = False, processed = length ops - 1, failed_srv = 1,
            errors_srv = [(SyncOperation.op_id (ops ! k),
                           Error (not_found_message (SyncOperation.passId (ops ! k))))]\<rparr>"
proof -
  define res0 where "res0 = \<lparr>success_srv = True, processed = 0, failed_srv = 0, errors_srv = []\<rparr>"
  define xs where "xs = take k ops"
  define ys where "ys = drop (Suc k) ops"
  define opk where "opk = ops ! k"
  have parts: "ops = xs @ opk # ys"
    unfolding xs_def ys_def opk_def using k by (rule id_take_nth_drop)
  have len: "length xs + length ys = length ops - 1"
    unfolding xs_def ys_def using k by simp
  have xs: "list_all (targets_existing db) xs"
    unfolding xs_def using k e by (rule others_before)
  have ys: "list_all (targets_existing db) ys"
    unfolding ys_def using k e by (rule others_after)
  obtain db1 res1 where p1: "process_all parse db res0 xs = (db1, res1)"
    by (cases "process_all parse db res0 xs")
  have d1: "dom db1 = dom db"
    using process_all_collection [of parse db res0 xs] p1 collection_after_dom [of parse db xs]
    by simp
  have r1: "res1 = res0\<lparr>processed := processed res0 + length xs\<rparr>"
    using process_all_existing [OF xs, of parse res0] p1 by simp
  have m1: "targets_missing db1 opk"
    using m d1 by (simp add: targets_missing_dom [of db1 db] opk_def)
  have ys1: "list_all (targets_existing db1) ys"
    using ys d1 by (simp add: targets_existing_dom [of db1 db] cong: list.pred_cong)
  define res2 where "res2 = res1\<lparr>failed_srv := failed_srv res1 + 1,
        errors_srv := errors_srv res1 @
          [(SyncOperation.op_id opk, Error (not_found_message (SyncOperation.passId opk)))]\<rparr>"
  have whole: "process_all parse db res0 (xs @ opk # ys) = process_all parse db1 res2 ys"
    by (simp only: process_all_append p1 prod.case process_all_skip_missing [OF m1] res2_def)
  have "snd (process_all parse db res0 (xs @ opk # ys)) =
      res2\<lparr>processed := processed res2 + length ys\<rparr>"
    using process_all_existing [OF ys1, of parse res2] whole by simp
  then have "snd (process_all parse db res0 (xs @ opk # ys)) =
      \<lparr>success_srv = True, processed = length ops - 1, failed_srv = 1,
       errors_srv = [(SyncOperation.op_id opk,
                      Error (not_found_message (SyncOperation.passId opk)))]\<rparr>"
    by (simp add: res2_def r1 res0_def len)
  then have A: "snd (POST parse db (xs @ opk # ys)) =
           \<lparr>success_srv = False, processed = length ops - 1, failed_srv = 1,
            errors_srv = [(SyncOperation.op_id opk,
                           Error (not_found_message (SyncOperation.passId opk)))]\<rparr>"
    by (simp add: POST_def split_beta res0_def)
  from A show ?thesis
    unfolding parts [symmetric] unfolding opk_def by simp
qed

lemma collection_after_without:
  assumes k: "k < length ops"
    and m: "targets_missing db (ops ! k)"
  shows "collection_after parse db ops = collection_after parse db (take k ops @ drop (Suc k) ops)"
proof -
  define db1 where "db1 = collection_after parse db (take k ops)"
  have d1: "dom db1 = dom db" by (simp add: db1_def collection_after_dom)
  have m1: "targets_missing db1 (ops ! k)"
    using m d1 by (simp add: targets_missing_dom [of db1 db])
  have one: "collection_after_one parse db1 (ops ! k) = db1"
    by (simp add: collection_after_one_def targets_missing_fails [OF m1])
  have "collection_after parse db ops =
      collection_after parse db (take k ops @ ops ! k # drop (Suc k) ops)"
    using id_take_nth_drop [OF k] by simp
  also have "\<dots> = collection_after parse db (take k ops @ drop (Suc k) ops)"
    using one by (simp add: collection_after_def db1_def)
  finally show ?thesis .
qed

text \<open>An update of a pass the collection has, with a payload, at its place in the batch:
  the handler returns, and the collection after it is the one before it when the pass is
  newer, and the one before it with the operation's fields written to the pass otherwise.\<close>

lemma existing_operation_effect:
  assumes i: "i < length ops" and e: "targets_existing db (ops ! i)"
  shows "\<exists>p cur given.
           SyncOperation.passId (ops ! i) = Some p \<and>
           collection_after parse db (take i ops) p = Some cur \<and>
           SyncOperation.payload (ops ! i) = Some given \<and>
           processOperation parse (collection_after parse db (take i ops)) (ops ! i) =
             Inr (collection_after parse db (take (Suc i) ops)) \<and>
           collection_after parse db (take (Suc i) ops) =
             (if server_is_newer parse cur (ops ! i) then collection_after parse db (take i ops)
              else (collection_after parse db (take i ops))(p \<mapsto>
                 (if SyncOperation.type (ops ! i) = UpdatePass
                  then (cur ++ given |` (- {''passId''}))
                         (''updatedAt'' \<mapsto> JDate (SyncOperation.createdAt (ops ! i)))
                  else cur ++
                      [''status'' \<mapsto> stored (given ''status''),
                       ''updatedAt'' \<mapsto> JDate (SyncOperation.createdAt (ops ! i)),
                       ''usedAt'' \<mapsto> (if given ''status'' = Some (JStr ''used'')
                                        then JDate (SyncOperation.createdAt (ops ! i))
                                        else JNull)])))"
proof -
  define op where "op = ops ! i"
  define db1 where "db1 = collection_after parse db (take i ops)"
  have d1: "dom db1 = dom db" by (simp add: db1_def collection_after_dom)
  have e1: "targets_existing db1 op"
    using e d1 by (simp add: targets_existing_dom [of db1 db] op_def)
  from e1 obtain p cur where p: "SyncOperation.passId op = Some p" and d: "db1 p = Some cur"
    by (auto simp: targets_existing_def split: option.splits)
  from e1 have t: "SyncOperation.type op = UpdatePass \<or> SyncOperation.type op = UpdateStatus"
    by (simp add: targets_existing_def)
  from e1 obtain given where g: "SyncOperation.payload op = Some given"
    by (auto simp: targets_existing_def)
  define new where "new =
      (if SyncOperation.type op = UpdatePass
       then (cur ++ given |` (- {''passId''}))
              (''updatedAt'' \<mapsto> JDate (SyncOperation.createdAt op))
       else cur ++
           [''status'' \<mapsto> stored (given ''status''),
            ''updatedAt'' \<mapsto> JDate (SyncOperation.createdAt op),
            ''usedAt'' \<mapsto> (if given ''status'' = Some (JStr ''used'')
                             then JDate (SyncOperation.createdAt op) else JNull)])"
  have r: "processOperation parse db1 op =
      Inr (if server_is_newer parse cur op then db1 else db1(p \<mapsto> new))"
    using update_on_found [of op p db1 cur parse, OF t p d] g by (simp add: new_def)
  have s: "collection_after parse db (take (Suc i) ops) =
      (if server_is_newer parse cur op then db1 else db1(p \<mapsto> new))"
    using r by (simp add: collection_after_snoc [OF i] collection_after_one_def db1_def op_def)
  have "SyncOperation.passId op = Some p \<and>
           db1 p = Some cur \<and>
           SyncOperation.payload op = Some given \<and>
           processOperation parse db1 op = Inr (collection_after parse db (take (Suc i) ops)) \<and>
           collection_after parse db (take (Suc i) ops) =
             (if server_is_newer parse cur op then db1 else db1(p \<mapsto> new))"
    using p d g r s by simp
  then show ?thesis
    unfolding new_def db1_def op_def by blast
qed

lemma missing_operation_effect:
  assumes k: "k < length ops" and m: "targets_missing db (ops ! k)"
  shows "processOperation parse (collection_after parse db (take k ops)) (ops ! k) =
           Inl (Error (not_found_message (SyncOperation.passId (ops ! k)))) \<and>
         collection_after parse db (take (Suc k) ops) = collection_after parse db (take k ops)"
proof -
  define db1 where "db1 = collection_after parse db (take k ops)"
  have d1: "dom db1 = dom db" by (simp add: db1_def collection_after_dom)
  have m1: "targets_missing db1 (ops ! k)"
    using m d1 by (simp add: targets_missing_dom [of db1 db])
  show ?thesis
    using targets_missing_fails [OF m1, of parse]
    by (simp add: collection_after_snoc [OF k] collection_after_one_def db1_def)
qed

text \<open>
  C5.  In a batch where operation \<open>k\<close> is an update of a pass the collection does not
  have, and every other operation is an update, with a payload, of a pass it has, the
  response counts \<open>length ops - 1\<close> operations as processed and one as failed, lists
  operation \<open>k\<close> alone in \<open>errors\<close> under its \<open>id\<close>, and has
  \<open>success = false\<close>.  The collection the batch leaves is the one its operations leave
  one after the other.  Operation \<open>k\<close> throws "Pass ... not found" and leaves the
  collection as it found it.  Every other operation returns without an error, on the
  collection the operations before it left: it leaves that collection as it is when the
  pass is newer than the operation, and writes its fields and its \<open>createdAt\<close> to the
  pass otherwise.  The batch leaves the collection that the batch without operation
  \<open>k\<close> leaves.
\<close>

theorem partial_batch_failure:
  assumes k: "k < length ops"
    and m: "targets_missing db (ops ! k)"
    and e: "\<forall>i < length ops. i \<noteq> k \<longrightarrow> targets_existing db (ops ! i)"
  shows "snd (POST parse db ops) =
           \<lparr>success_srv = False, processed = length ops - 1, failed_srv = 1,
            errors_srv = [(SyncOperation.op_id (ops ! k),
                           Error (not_found_message (SyncOperation.passId (ops ! k))))]\<rparr> \<and>
         fst (POST parse db ops) = collection_after parse db ops \<and>
         processOperation parse (collection_after parse db (take k ops)) (ops ! k) =
           Inl (Error (not_found_message (SyncOperation.passId (ops ! k)))) \<and>
         collection_after parse db (take (Suc k) ops) = collection_after parse db (take k ops) \<and>
         (\<forall>i < length ops. i \<noteq> k \<longrightarrow>
            (\<exists>p cur given.
               SyncOperation.passId (ops ! i) = Some p \<and>
               collection_after parse db (take i ops) p = Some cur \<and>
               SyncOperation.payload (ops ! i) = Some given \<and>
               processOperation parse (collection_after parse db (take i ops)) (ops ! i) =
                 Inr (collection_after parse db (take (Suc i) ops)) \<and>
               collection_after parse db (take (Suc i) ops) =
                 (if server_is_newer parse cur (ops ! i)
                  then collection_after parse db (take i ops)
                  else (collection_after parse db (take i ops))(p \<mapsto>
                     (if SyncOperation.type (ops ! i) = UpdatePass
                      then (cur ++ given |` (- {''passId''}))
                             (''updatedAt'' \<mapsto> JDate (SyncOperation.createdAt (ops ! i)))
                      else cur ++
                          [''status'' \<mapsto> stored (given ''status''),
                           ''updatedAt'' \<mapsto> JDate (SyncOperation.createdAt (ops ! i)),
                           ''usedAt'' \<mapsto> (if given ''status'' = Some (JStr ''used'')
                                            then JDate (SyncOperation.createdAt (ops ! i))
                                            else JNull)]))))) \<and>
         fst (POST parse db ops) = fst (POST parse db (take k ops @ drop (Suc k) ops))"
proof (intro conjI allI impI)
  show "snd (POST parse db ops) =
           \<lparr>success_srv = False, processed = length ops - 1, failed_srv = 1,
            errors_srv = [(SyncOperation.op_id (ops ! k),
                           Error (not_found_message (SyncOperation.passId (ops ! k))))]\<rparr>"
    using k m e by (rule batch_results)
  show "fst (POST parse db ops) = collection_after parse db ops"
    by (rule POST_collection)
  show "processOperation parse (collection_after parse db (take k ops)) (ops ! k) =
           Inl (Error (not_found_message (SyncOperation.passId (ops ! k))))"
    using missing_operation_effect [OF k m, of parse] by simp
  show "collection_after parse db (take (Suc k) ops) = collection_after parse db (take k ops)"
    using missing_operation_effect [OF k m, of parse] by simp
  show "fst (POST parse db ops) = fst (POST parse db (take k ops @ drop (Suc k) ops))"
    by (simp only: POST_collection collection_after_without [OF k m])
next
  fix i
  assume i: "i < length ops" and "i \<noteq> k"
  with e have "targets_existing db (ops ! i)" by simp
  with i show "\<exists>p cur given.
               SyncOperation.passId (ops ! i) = Some p \<and>
               collection_after parse db (take i ops) p = Some cur \<and>
               SyncOperation.payload (ops ! i) = Some given \<and>
               processOperation parse (collection_after parse db (take i ops)) (ops ! i) =
                 Inr (collection_after parse db (take (Suc i) ops)) \<and>
               collection_after parse db (take (Suc i) ops) =
                 (if server_is_newer parse cur (ops ! i)
                  then collection_after parse db (take i ops)
                  else (collection_after parse db (take i ops))(p \<mapsto>
                     (if SyncOperation.type (ops ! i) = UpdatePass
                      then (cur ++ given |` (- {''passId''}))
                             (''updatedAt'' \<mapsto> JDate (SyncOperation.createdAt (ops ! i)))
                      else cur ++
                          [''status'' \<mapsto> stored (given ''status''),
                           ''updatedAt'' \<mapsto> JDate (SyncOperation.createdAt (ops ! i)),
                           ''usedAt'' \<mapsto> (if given ''status'' = Some (JStr ''used'')
                                            then JDate (SyncOperation.createdAt (ops ! i))
                                            else JNull)])))"
    by (rule existing_operation_effect)
qed

text \<open>The example batch: the first operation marks \<open>VIS-0001\<close> as used at 150, the
  second fails, the third writes the visitor's name and city at 170, and the fourth, created
  at 50, leaves \<open>VIS-0002\<close>, updated at 100, as it is.\<close>

lemma batch0_collection:
  "field_of (collection_after parse_example passes0 batch0) ''VIS-0001'' ''status'' =
     Some (JStr ''used'') \<and>
   field_of (collection_after parse_example passes0 batch0) ''VIS-0001'' ''usedAt'' =
     Some (JDate 150) \<and>
   field_of (collection_after parse_example passes0 batch0) ''VIS-0001'' ''name'' =
     Some (JStr ''Ravi'') \<and>
   field_of (collection_after parse_example passes0 batch0) ''VIS-0001'' ''city'' =
     Some (JStr ''Pune'') \<and>
   field_of (collection_after parse_example passes0 batch0) ''VIS-0001'' ''updatedAt'' =
     Some (JDate 170) \<and>
   field_of (collection_after parse_example passes0 batch0) ''VIS-0002'' ''usedAt'' =
     Some (JDate 100) \<and>
   field_of (collection_after parse_example passes0 batch0) ''VIS-0002'' ''updatedAt'' =
     Some (JDate 100)"
  by code_simp

theorem partial_batch_failure_witness:
  "length batch0 = 4 \<and>
   targets_existing passes0 (batch0 ! 0) \<and> targets_missing passes0 (batch0 ! 1) \<and>
   targets_existing passes0 (batch0 ! 2) \<and> targets_existing passes0 (batch0 ! 3) \<and>
   snd (POST parse_example passes0 batch0) =
     \<lparr>success_srv = False, processed = 3, failed_srv = 1,
      errors_srv = [(2, Error ''Pass VIS-9999 not found'')]\<rparr> \<and>
   field_of (fst (POST parse_example passes0 batch0)) ''VIS-0001'' ''status'' =
     Some (JStr ''used'') \<and>
   field_of (fst (POST parse_example passes0 batch0)) ''VIS-0001'' ''usedAt'' =
     Some (JDate 150) \<and>
   field_of (fst (POST parse_example passes0 batch0)) ''VIS-0001'' ''name'' =
     Some (JStr ''Ravi'') \<and>
   field_of (fst (POST parse_example passes0 batch0)) ''VIS-0001'' ''city'' =
     Some (JStr ''Pune'') \<and>
   field_of (fst (POST parse_example passes0 batch0)) ''VIS-0001'' ''updatedAt'' =
     Some (JDate 170) \<and>
   field_of (fst (POST parse_example passes0 batch0)) ''VIS-0002'' ''usedAt'' =
     Some (JDate 100) \<and>
   field_of (fst (POST parse_example passes0 batch0)) ''VIS-0002'' ''updatedAt'' =
     Some (JDate 100)"
proof -
  have e0: "targets_existing passes0 (batch0 ! 0)"
    by (simp add: batch0_def targets_existing_def posted_def mark_used_def passes0_def)
  have e2: "targets_existing passes0 (batch0 ! 2)"
    by (simp add: batch0_def targets_existing_def posted_def visitor_update_def passes0_def)
  have e3: "targets_existing passes0 (batch0 ! 3)"
    by (simp add: batch0_def targets_existing_def posted_def mark_used_def passes0_def)
  have m1: "targets_missing passes0 (batch0 ! 1)"
    by (simp add: batch0_def targets_missing_def posted_def visitor_update_def passes0_def)
  have len: "length batch0 = 4"
    by (simp add: batch0_def)
  have k: "1 < length batch0"
    by (simp add: len)
  have others: "\<forall>i < length batch0. i \<noteq> 1 \<longrightarrow> targets_existing passes0 (batch0 ! i)"
  proof (intro allI impI)
    fix i assume "i < length batch0" and "i \<noteq> 1"
    then have "i = 0 \<or> i = 2 \<or> i = 3" using len by arith
    with e0 e2 e3 show "targets_existing passes0 (batch0 ! i)" by auto
  qed
  have id1: "SyncOperation.op_id (batch0 ! 1) = 2"
    and p1: "SyncOperation.passId (batch0 ! 1) = Some ''VIS-9999''"
    by (simp_all add: batch0_def posted_def visitor_update_def)
  note main = partial_batch_failure [OF k m1 others, of parse_example]
  from main id1 p1 len
  have r: "snd (POST parse_example passes0 batch0) =
     \<lparr>success_srv = False, processed = 3, failed_srv = 1,
      errors_srv = [(2, Error ''Pass VIS-9999 not found'')]\<rparr>"
    by (simp add: not_found_message_def)
  from main have c: "fst (POST parse_example passes0 batch0) =
      collection_after parse_example passes0 batch0"
    by (rule conjunct1 [OF conjunct2])
  from len e0 m1 e2 e3 r batch0_collection [unfolded c [symmetric]] show ?thesis
    by (intro conjI) simp_all
qed

subsection \<open>The visitor update endpoint\<close>

lemma PUT_found:
  assumes "b ''passId'' = Some (JStr p)" and "p \<noteq> []" and "db p = Some cur"
  shows "PUT now db b =
     (let new = cur ++
            [''name'' \<mapsto> stored (b ''name''), ''mobile'' \<mapsto> stored (b ''mobile''),
             ''city'' \<mapsto> stored (b ''city''), ''age'' \<mapsto> stored (b ''age''),
             ''updatedAt'' \<mapsto> JDate now]
      in (\<lparr>status = 200, error_field = None,
           pass_field =
             Some ((new |` {''status'', ''name'', ''mobile'', ''city'', ''age'', ''updatedAt''})
                     (''passId'' \<mapsto> JStr p))\<rparr>,
          db(p \<mapsto> new)))"
  using assms
  by (simp add: PUT_def falsy_def findOne_def updateOne_def Let_def stored_def
        del: restrict_fun_upd)

lemma PUT_missing:
  assumes "\<not> falsy (b ''passId'')" and "findOne db (b ''passId'') = None"
  shows "PUT now db b =
     (\<lparr>status = 404, error_field = Some ''Pass not found'', pass_field = None\<rparr>, db)"
  using assms by (simp add: PUT_def)

lemma PUT_no_passId:
  assumes "falsy (b ''passId'')"
  shows "PUT now db b =
     (\<lparr>status = 400, error_field = Some ''Pass ID is required'', pass_field = None\<rparr>, db)"
  using assms by (simp add: PUT_def)

text \<open>
  C10.  A \<open>PUT /api/passes/update\<close> whose \<open>passId\<close> names a pass of the
  collection answers 200 and writes all four visitor fields from the request: a field
  the request has is stored, a field it omits is stored as null.  \<open>updatedAt\<close> becomes
  the server's time.  Every other field of the pass (\<open>passId\<close>, \<open>status\<close>,
  \<open>createdAt\<close>, \<open>usedAt\<close> among them) and every other pass is as before.
\<close>

theorem PUT_overwrites_visitor_fields:
  assumes "b ''passId'' = Some (JStr p)" and "p \<noteq> []" and "db p = Some cur"
  shows "\<exists>new. snd (PUT now db b) = db(p \<mapsto> new) \<and>
           status (fst (PUT now db b)) = 200 \<and>
           new ''name'' = Some (stored (b ''name'')) \<and>
           new ''mobile'' = Some (stored (b ''mobile'')) \<and>
           new ''city'' = Some (stored (b ''city'')) \<and>
           new ''age'' = Some (stored (b ''age'')) \<and>
           new ''passId'' = cur ''passId'' \<and>
           new ''status'' = cur ''status'' \<and>
           new ''createdAt'' = cur ''createdAt'' \<and>
           new ''usedAt'' = cur ''usedAt'' \<and>
           (\<forall>k. new k =
              (if k = ''name'' \<or> k = ''mobile'' \<or> k = ''city'' \<or> k = ''age''
               then Some (stored (b k))
               else if k = ''updatedAt'' then Some (JDate now) else cur k))"
proof -
  define new where "new = cur ++
            [''name'' \<mapsto> stored (b ''name''), ''mobile'' \<mapsto> stored (b ''mobile''),
             ''city'' \<mapsto> stored (b ''city''), ''age'' \<mapsto> stored (b ''age''),
             ''updatedAt'' \<mapsto> JDate now]"
  have r: "snd (PUT now db b) = db(p \<mapsto> new)" "status (fst (PUT now db b)) = 200"
    using assms by (simp_all add: PUT_found [of b p db cur now] Let_def new_def)
  have "snd (PUT now db b) = db(p \<mapsto> new) \<and>
           status (fst (PUT now db b)) = 200 \<and>
           new ''name'' = Some (stored (b ''name'')) \<and>
           new ''mobile'' = Some (stored (b ''mobile'')) \<and>
           new ''city'' = Some (stored (b ''city'')) \<and>
           new ''age'' = Some (stored (b ''age'')) \<and>
           new ''passId'' = cur ''passId'' \<and>
           new ''status'' = cur ''status'' \<and>
           new ''createdAt'' = cur ''createdAt'' \<and>
           new ''usedAt'' = cur ''usedAt'' \<and>
           (\<forall>k. new k =
              (if k = ''name'' \<or> k = ''mobile'' \<or> k = ''city'' \<or> k = ''age''
               then Some (stored (b k))
               else if k = ''updatedAt'' then Some (JDate now) else cur k))"
    unfolding r by (simp add: new_def map_add_def)
  then show ?thesis by (rule exI [of _ new])
qed

theorem PUT_overwrites_visitor_fields_witness:
  "[''passId'' \<mapsto> JStr ''VIS-0003'', ''name'' \<mapsto> JStr ''Ravi''] ''passId'' = Some (JStr ''VIS-0003'') \<and>
   ''VIS-0003'' \<noteq> [] \<and>
   (passes0(''VIS-0003'' \<mapsto> pass_visited)) ''VIS-0003'' = Some pass_visited \<and>
   (\<exists>new. snd (PUT 500 (passes0(''VIS-0003'' \<mapsto> pass_visited))
                 [''passId'' \<mapsto> JStr ''VIS-0003'', ''name'' \<mapsto> JStr ''Ravi'']) =
              (passes0(''VIS-0003'' \<mapsto> pass_visited))(''VIS-0003'' \<mapsto> new) \<and>
          new ''name'' = Some (JStr ''Ravi'') \<and> new ''mobile'' = Some JNull \<and>
          new ''city'' = Some JNull \<and> new ''age'' = Some JNull \<and>
          new ''status'' = Some (JStr ''used'') \<and> new ''createdAt'' = Some (JDate 10) \<and>
          new ''usedAt'' = Some (JDate 90))"
proof -
  let ?b = "[''passId'' \<mapsto> JStr ''VIS-0003'', ''name'' \<mapsto> JStr ''Ravi'']"
  let ?db = "passes0(''VIS-0003'' \<mapsto> pass_visited)"
  have h1: "?b ''passId'' = Some (JStr ''VIS-0003'')" by simp
  have h2: "''VIS-0003'' \<noteq> []" by simp
  have h3: "?db ''VIS-0003'' = Some pass_visited" by simp
  from PUT_overwrites_visitor_fields [of ?b "''VIS-0003''" ?db pass_visited 500, OF h1 h2 h3]
  obtain new where n: "snd (PUT 500 ?db ?b) = ?db(''VIS-0003'' \<mapsto> new)"
    "new ''name'' = Some (stored (?b ''name''))" "new ''mobile'' = Some (stored (?b ''mobile''))"
    "new ''city'' = Some (stored (?b ''city''))" "new ''age'' = Some (stored (?b ''age''))"
    "new ''status'' = pass_visited ''status''" "new ''createdAt'' = pass_visited ''createdAt''"
    "new ''usedAt'' = pass_visited ''usedAt''"
    by blast
  have "snd (PUT 500 ?db ?b) = ?db(''VIS-0003'' \<mapsto> new) \<and>
          new ''name'' = Some (JStr ''Ravi'') \<and> new ''mobile'' = Some JNull \<and>
          new ''city'' = Some JNull \<and> new ''age'' = Some JNull \<and>
          new ''status'' = Some (JStr ''used'') \<and> new ''createdAt'' = Some (JDate 10) \<and>
          new ''usedAt'' = Some (JDate 90)"
    using n by (simp add: stored_def pass_visited_def)
  then have "\<exists>new. snd (PUT 500 ?db ?b) = ?db(''VIS-0003'' \<mapsto> new) \<and>
          new ''name'' = Some (JStr ''Ravi'') \<and> new ''mobile'' = Some JNull \<and>
          new ''city'' = Some JNull \<and> new ''age'' = Some JNull \<and>
          new ''status'' = Some (JStr ''used'') \<and> new ''createdAt'' = Some (JDate 10) \<and>
          new ''usedAt'' = Some (JDate 90)"
    by (rule exI [of _ new])
  with h1 h2 h3 show ?thesis by (intro conjI)
qed

subsection \<open>The order of the pending operations\<close>

lemma ids_ascending_empty: "ids_ascending empty_table"
  by (simp add: ids_ascending_def empty_table_def)

lemma ids_ascending_queueOperation:
  assumes "ids_ascending t"
  shows "ids_ascending (fst (queueOperation t operation))"
proof -
  from assms have s: "sorted_wrt (<) (map op_id (rows t))"
    and b: "\<forall>op \<in> set (rows t). op_id op < nextId t"
    by (simp_all add: ids_ascending_def list_all_iff)
  from b have "\<forall>op \<in> set (rows t). op_id op < nextId t + 1"
    by auto
  with s b show ?thesis
    by (simp add: ids_ascending_def queueOperation_def sorted_wrt_append list_all_iff)
qed

lemma ids_ascending_remove:
  assumes "ids_ascending t"
  shows "ids_ascending (removePendingOperation t i)"
proof -
  have "map op_id (filter (\<lambda>op. op_id op \<noteq> i) (rows t)) =
        filter (\<lambda>j. j \<noteq> i) (map op_id (rows t))"
    by (simp add: filter_map comp_def)
  with assms show ?thesis
    by (simp add: ids_ascending_def removePendingOperation_def sorted_wrt_filter list_all_iff)
qed

lemma ids_ascending_update:
  assumes "ids_ascending t"
  shows "ids_ascending (updatePendingOperationRetryCount t i rc)"
proof -
  have m: "map (op_id \<circ> (\<lambda>op. if op_id op = i then op\<lparr>retryCount := rc\<rparr> else op)) xs =
      map op_id xs" for xs :: "PendingOperation list"
    by (induction xs) simp_all
  from assms show ?thesis
    by (auto simp: ids_ascending_def updatePendingOperationRetryCount_def list_all_iff m)
qed

lemma ids_ascending_apply_call: "ids_ascending t \<Longrightarrow> ids_ascending (apply_call t c)"
  by (cases c)
    (simp_all add: ids_ascending_queueOperation ids_ascending_remove ids_ascending_update)

lemma ids_ascending_foldl: "ids_ascending t \<Longrightarrow> ids_ascending (foldl apply_call t cs)"
  by (induction cs arbitrary: t) (simp_all add: ids_ascending_apply_call)

lemma ids_ascending_queue_calls: "ids_ascending (queue_calls cs)"
  by (simp add: queue_calls_def ids_ascending_foldl ids_ascending_empty)

lemma insort_key_same_test:
  assumes "\<forall>y \<in> set ys. (f x \<le> f y) = (g x \<le> g y)"
  shows "insort_key f x ys = insort_key g x ys"
  using assms by (induction ys) simp_all

lemma sort_by_time_then_id:
  assumes "sorted_wrt (<) (map op_id xs)"
  shows "sort_key (\<lambda>op. (createdAt op, op_id op)) xs = sort_key createdAt xs"
  using assms
proof (induction xs)
  case Nil
  show ?case by simp
next
  case (Cons x xs)
  from Cons.prems have later: "\<forall>y \<in> set xs. op_id x < op_id y"
    and rest: "sorted_wrt (<) (map op_id xs)"
    by simp_all
  have "\<forall>y \<in> set (sort_key createdAt xs).
          ((createdAt x, op_id x) \<le> (createdAt y, op_id y)) = (createdAt x \<le> createdAt y)"
    using later by (auto simp: less_eq_prod_def)
  then have "insort_key (\<lambda>op. (createdAt op, op_id op)) x (sort_key createdAt xs) =
             insort_key createdAt x (sort_key createdAt xs)"
    by (rule insort_key_same_test)
  with Cons.IH [OF rest] show ?case by simp
qed

text \<open>
  C6.  Whatever calls built the table (operations queued in any order, removed, their
  retry counts set), \<open>getPendingOperations\<close> returns every row of the table, each once,
  in ascending order of \<open>createdAt\<close>, and rows with equal \<open>createdAt\<close> in ascending
  order of \<open>id\<close>.  The \<open>id\<close> is the enqueue sequence number: along the rows in the
  order they were queued it strictly increases, so the list is the rows in enqueue order,
  stably sorted by \<open>createdAt\<close>.
\<close>

theorem pending_listed_in_time_order:
  "mset (getPendingOperations (queue_calls cs)) = mset (rows (queue_calls cs)) \<and>
   sorted (map createdAt (getPendingOperations (queue_calls cs))) \<and>
   sorted (map (\<lambda>op. (createdAt op, op_id op)) (getPendingOperations (queue_calls cs))) \<and>
   sorted_wrt (<) (map op_id (rows (queue_calls cs))) \<and>
   getPendingOperations (queue_calls cs) = sort_key createdAt (rows (queue_calls cs))"
proof -
  let ?t = "queue_calls cs"
  have asc: "sorted_wrt (<) (map op_id (rows ?t))"
    using ids_ascending_queue_calls [of cs] by (simp add: ids_ascending_def)
  have stable: "getPendingOperations ?t = sort_key createdAt (rows ?t)"
    unfolding getPendingOperations_def using asc by (rule sort_by_time_then_id)
  have "mset (getPendingOperations ?t) = mset (rows ?t)"
    by (simp add: getPendingOperations_def)
  moreover have "sorted (map createdAt (getPendingOperations ?t))"
    by (simp add: stable)
  moreover have "sorted (map (\<lambda>op. (createdAt op, op_id op)) (getPendingOperations ?t))"
    by (simp add: getPendingOperations_def)
  ultimately show ?thesis using asc stable by simp
qed

text \<open>Four operations queued at times 30, 10, 20, 10 are listed oldest first, the two
  of time 10 in the order they were queued.\<close>

lemma listed_oldest_first_example:
  "map (\<lambda>op. (op_id op, createdAt op))
     (getPendingOperations
        (queue_calls [Enqueue (queued_at 30), Enqueue (queued_at 10), Enqueue (queued_at 20),
                      Enqueue (queued_at 10)])) =
   [(2, 10), (4, 10), (3, 20), (1, 30)]"
  by (simp add: queue_calls_def queueOperation_def empty_table_def getPendingOperations_def
        queued_at_def mark_used_def less_eq_prod_def)

subsection \<open>One operation of a drain\<close>

lemma sync_step_succeeded:
  assumes "processSingleOperation fetch (net st) op = (Inr u, n')"
  shows "sync_step fetch st op =
     st\<lparr>net := n', dispatched := dispatched st @ [(op_id op, request_of op)],
        pendingOps := removePendingOperation (pendingOps st) (op_id op),
        result := (result st)\<lparr>synced := synced (result st) + 1\<rparr>\<rparr>"
  using assms by (simp add: sync_step_def)

lemma sync_step_failed:
  assumes "processSingleOperation fetch (net st) op = (Inl msg, n')"
  shows "sync_step fetch st op =
     st\<lparr>net := n', dispatched := dispatched st @ [(op_id op, request_of op)],
        result := (result st)
          \<lparr>failed := failed (result st) + 1,
           errors := errors (result st) @
             [\<lparr>operationId = op_id op, error = msg,
               retryable = (retryCount op < MAX_RETRIES)\<rparr>]\<rparr>,
        pendingOps :=
          (if retryCount op < MAX_RETRIES
           then updatePendingOperationRetryCount (pendingOps st) (op_id op) (retryCount op + 1)
           else removePendingOperation (pendingOps st) (op_id op)),
        waits :=
          (if retryCount op < MAX_RETRIES
           then waits st @ [RETRY_DELAY_MS * 2 ^ retryCount op] else waits st)\<rparr>"
  using assms by (simp add: sync_step_def Let_def)

lemma sync_step_cases:
  obtains (succeeded) u n' where "processSingleOperation fetch (net st) op = (Inr u, n')"
  | (failed) msg n' where "processSingleOperation fetch (net st) op = (Inl msg, n')"
proof (cases "processSingleOperation fetch (net st) op")
  case (Pair r n')
  then show ?thesis by (cases r) (auto intro: succeeded failed)
qed

lemma sync_step_counts:
  "synced (result (sync_step fetch st op)) + failed (result (sync_step fetch st op)) =
     Suc (synced (result st) + failed (result st))"
  by (cases rule: sync_step_cases [of fetch st op])
    (simp_all add: sync_step_succeeded sync_step_failed)

lemma sync_step_errors:
  "length (errors (result (sync_step fetch st op))) + failed (result st) =
     length (errors (result st)) + failed (result (sync_step fetch st op))"
  by (cases rule: sync_step_cases [of fetch st op])
    (simp_all add: sync_step_succeeded sync_step_failed)

lemma sync_loop_counts:
  "synced (result (foldl (sync_step fetch) st ops)) +
     failed (result (foldl (sync_step fetch) st ops)) =
   synced (result st) + failed (result st) + length ops"
  by (induction ops arbitrary: st) (simp_all add: sync_step_counts)

lemma sync_loop_errors:
  "length (errors (result (foldl (sync_step fetch) st ops))) + failed (result st) =
     length (errors (result st)) + failed (result (foldl (sync_step fetch) st ops))"
proof (induction ops arbitrary: st)
  case Nil
  show ?case by simp
next
  case (Cons op ops)
  from Cons.IH [of "sync_step fetch st op"] sync_step_errors [of fetch st op]
  show ?case by simp
qed

text \<open>
  C9.  The result of a drain counts every operation read at its start once, as synced
  or as failed; its \<open>errors\<close> list has one entry for each failed operation; and
  \<open>success\<close> is true exactly when no operation failed.
\<close>

theorem sync_result_accounts_for_every_operation:
  "synced (result (syncPendingOperations fetch t n)) +
     failed (result (syncPendingOperations fetch t n)) = length (getPendingOperations t) \<and>
   length (errors (result (syncPendingOperations fetch t n))) =
     failed (result (syncPendingOperations fetch t n)) \<and>
   success (result (syncPendingOperations fetch t n)) =
     (failed (result (syncPendingOperations fetch t n)) = 0)"
proof (cases "getPendingOperations t = []")
  case True
  then show ?thesis by (simp add: syncPendingOperations_def)
next
  case False
  let ?init = "\<lparr>pendingOps = t, net = n,
                 result = \<lparr>success = True, synced = 0, failed = 0, errors = []\<rparr>,
                 waits = [], dispatched = []\<rparr>"
  let ?final = "foldl (sync_step fetch) ?init (getPendingOperations t)"
  have r: "result (syncPendingOperations fetch t n) =
      (result ?final)\<lparr>success := (failed (result ?final) = 0)\<rparr>"
    using False by (simp add: syncPendingOperations_def Let_def)
  from sync_loop_counts [of fetch ?init "getPendingOperations t"]
  have c: "synced (result ?final) + failed (result ?final) = length (getPendingOperations t)"
    by simp
  from sync_loop_errors [of fetch ?init "getPendingOperations t"]
  have e: "length (errors (result ?final)) = failed (result ?final)"
    by simp
  from c e show ?thesis by (simp add: r)
qed

subsection \<open>What a drain does to the row of one operation\<close>

lemma entry_remove_other: "i \<noteq> j \<Longrightarrow> entry (removePendingOperation t j) i = entry t i"
  by (auto simp: entry_def removePendingOperation_def intro: filter_cong)

lemma entry_remove_same: "entry (removePendingOperation t i) i = []"
  by (simp add: entry_def removePendingOperation_def)

lemma filter_id_map_retry:
  "filter (\<lambda>x. op_id x = i)
     (map (\<lambda>x. if op_id x = j then x\<lparr>retryCount := rc\<rparr> else x) xs) =
   (if i = j then map (\<lambda>x. x\<lparr>retryCount := rc\<rparr>) (filter (\<lambda>x. op_id x = i) xs)
    else filter (\<lambda>x. op_id x = i) xs)"
  by (induction xs) auto

lemma entry_update_other:
  "i \<noteq> j \<Longrightarrow> entry (updatePendingOperationRetryCount t j rc) i = entry t i"
  by (simp add: entry_def updatePendingOperationRetryCount_def filter_id_map_retry)

lemma entry_update_same:
  "entry (updatePendingOperationRetryCount t i rc) i =
     map (\<lambda>x. x\<lparr>retryCount := rc\<rparr>) (entry t i)"
  by (simp add: entry_def updatePendingOperationRetryCount_def filter_id_map_retry)

lemma entry_step_other:
  assumes "i \<noteq> op_id op"
  shows "entry (pendingOps (sync_step fetch st op)) i = entry (pendingOps st) i"
  using assms
  by (cases rule: sync_step_cases [of fetch st op])
    (simp_all add: sync_step_succeeded sync_step_failed entry_remove_other entry_update_other)

lemma entry_loop_other:
  assumes "i \<notin> op_id ` set ops"
  shows "entry (pendingOps (foldl (sync_step fetch) st ops)) i = entry (pendingOps st) i"
  using assms by (induction ops arbitrary: st) (simp_all add: entry_step_other)

lemma entry_step_failed:
  assumes "processSingleOperation fetch (net st) op = (Inl msg, n')"
  shows "entry (pendingOps (sync_step fetch st op)) (op_id op) =
     (if retryCount op < MAX_RETRIES
      then map (\<lambda>x. x\<lparr>retryCount := retryCount op + 1\<rparr>) (entry (pendingOps st) (op_id op))
      else [])"
  by (simp add: sync_step_failed [OF assms] entry_update_same entry_remove_same)

lemma entry_of_member:
  assumes "distinct (map op_id xs)" and "op \<in> set xs"
  shows "filter (\<lambda>x. op_id x = op_id op) xs = [op]"
  using assms
proof (induction xs)
  case Nil
  then show ?case by simp
next
  case (Cons x xs)
  show ?case
  proof (cases "x = op")
    case True
    from Cons.prems have "op_id x \<notin> op_id ` set xs" by simp
    then have "filter (\<lambda>y. op_id y = op_id x) xs = []"
      by (force simp: filter_empty_conv image_iff)
    with True show ?thesis by simp
  next
    case False
    with Cons.prems have m: "op \<in> set xs" and d: "distinct (map op_id xs)"
      and "op_id x \<notin> op_id ` set xs"
      by simp_all
    then have "op_id x \<noteq> op_id op" by auto
    with Cons.IH [OF d m] show ?thesis by simp
  qed
qed

lemma step_errors_grow:
  "set (errors (result st)) \<subseteq> set (errors (result (sync_step fetch st op)))"
  by (cases rule: sync_step_cases [of fetch st op])
    (auto simp: sync_step_succeeded sync_step_failed)

lemma loop_errors_grow:
  "set (errors (result st)) \<subseteq> set (errors (result (foldl (sync_step fetch) st ops)))"
proof (induction ops arbitrary: st)
  case Nil
  show ?case by simp
next
  case (Cons op ops)
  from step_errors_grow [of st fetch op] Cons.IH [of "sync_step fetch st op"]
  show ?case by auto
qed

lemma step_waits_grow: "set (waits st) \<subseteq> set (waits (sync_step fetch st op))"
  by (cases rule: sync_step_cases [of fetch st op])
    (auto simp: sync_step_succeeded sync_step_failed)

lemma loop_waits_grow:
  "set (waits st) \<subseteq> set (waits (foldl (sync_step fetch) st ops))"
proof (induction ops arbitrary: st)
  case Nil
  show ?case by simp
next
  case (Cons op ops)
  from step_waits_grow [of st fetch op] Cons.IH [of "sync_step fetch st op"]
  show ?case by auto
qed

lemma step_dispatched:
  "dispatched (sync_step fetch st op) = dispatched st @ [(op_id op, request_of op)]"
  by (cases rule: sync_step_cases [of fetch st op])
    (simp_all add: sync_step_succeeded sync_step_failed)

lemma loop_dispatched:
  "dispatched (foldl (sync_step fetch) st ops) =
     dispatched st @ map (\<lambda>op. (op_id op, request_of op)) ops"
  by (induction ops arbitrary: st) (simp_all add: step_dispatched)

lemma step_ids:
  "map op_id (rows (pendingOps (sync_step fetch st op))) =
     (if (\<exists>msg n'. processSingleOperation fetch (net st) op = (Inl msg, n')) \<and>
         retryCount op < MAX_RETRIES
      then map op_id (rows (pendingOps st))
      else filter (\<lambda>i. i \<noteq> op_id op) (map op_id (rows (pendingOps st))))"
proof -
  have m: "map (op_id \<circ> (\<lambda>x. if op_id x = i then x\<lparr>retryCount := rc\<rparr> else x)) xs =
      map op_id xs" for xs :: "PendingOperation list" and i rc
    by (induction xs) simp_all
  show ?thesis
    by (cases rule: sync_step_cases [of fetch st op])
      (simp_all add: sync_step_succeeded sync_step_failed removePendingOperation_def
         updatePendingOperationRetryCount_def filter_map comp_def m [unfolded comp_def])
qed

lemma step_ids_distinct:
  "distinct (map op_id (rows (pendingOps st))) \<Longrightarrow>
   distinct (map op_id (rows (pendingOps (sync_step fetch st op))))"
  by (simp add: step_ids)

lemma step_ids_subset:
  "set (map op_id (rows (pendingOps (sync_step fetch st op)))) \<subseteq>
     set (map op_id (rows (pendingOps st)))"
  by (auto simp: step_ids)

lemma loop_ids_distinct:
  "distinct (map op_id (rows (pendingOps st))) \<Longrightarrow>
   distinct (map op_id (rows (pendingOps (foldl (sync_step fetch) st ops))))"
  by (induction ops arbitrary: st) (simp_all add: step_ids_distinct)

lemma loop_ids_subset:
  "set (map op_id (rows (pendingOps (foldl (sync_step fetch) st ops)))) \<subseteq>
     set (map op_id (rows (pendingOps st)))"
proof (induction ops arbitrary: st)
  case Nil
  show ?case by simp
next
  case (Cons op ops)
  from step_ids_subset [of fetch st op] Cons.IH [of "sync_step fetch st op"]
  show ?case by (simp del: set_map)
qed

lemma pending_same_rows: "set (getPendingOperations t) = set (rows t)"
  by (simp add: getPendingOperations_def)

lemma pending_ids_distinct:
  "distinct (map op_id (getPendingOperations t)) = distinct (map op_id (rows t))"
proof -
  have "mset (map op_id (getPendingOperations t)) = mset (map op_id (rows t))"
    by (simp add: getPendingOperations_def)
  then show ?thesis by (rule mset_eq_imp_distinct_iff)
qed

lemma sync_as_loop:
  assumes "getPendingOperations t \<noteq> []"
  shows "syncPendingOperations fetch t n =
     (let st = foldl (sync_step fetch)
                 \<lparr>pendingOps = t, net = n,
                  result = \<lparr>success = True, synced = 0, failed = 0, errors = []\<rparr>,
                  waits = [], dispatched = []\<rparr> (getPendingOperations t)
      in st\<lparr>result := (result st)\<lparr>success := (failed (result st) = 0)\<rparr>\<rparr>)"
  using assms by (simp add: syncPendingOperations_def Let_def)

lemma sync_nothing_pending:
  assumes "getPendingOperations t = []"
  shows "syncPendingOperations fetch t n =
     \<lparr>pendingOps = t, net = n,
      result = \<lparr>success = True, synced = 0, failed = 0, errors = []\<rparr>,
      waits = [], dispatched = []\<rparr>"
  using assms by (simp add: syncPendingOperations_def Let_def)

lemma sync_ids_distinct:
  assumes "distinct (map op_id (rows t))"
  shows "distinct (map op_id (rows (pendingOps (syncPendingOperations fetch t n))))"
proof (cases "getPendingOperations t = []")
  case True
  with assms show ?thesis by (simp add: sync_nothing_pending)
next
  case False
  with assms show ?thesis by (simp add: sync_as_loop Let_def loop_ids_distinct)
qed

lemma sync_ids_subset:
  "set (map op_id (rows (pendingOps (syncPendingOperations fetch t n)))) \<subseteq>
     set (map op_id (rows t))"
proof (cases "getPendingOperations t = []")
  case True
  then show ?thesis by (simp add: sync_nothing_pending)
next
  case False
  let ?init = "\<lparr>pendingOps = t, net = n,
                  result = \<lparr>success = True, synced = 0, failed = 0, errors = []\<rparr>,
                  waits = [], dispatched = []\<rparr>"
  from loop_ids_subset [of fetch ?init "getPendingOperations t"] False
  show ?thesis by (simp add: sync_as_loop Let_def del: set_map)
qed

lemma entry_empty_iff: "entry t i = [] \<longleftrightarrow> i \<notin> set (map op_id (rows t))"
  by (auto simp: entry_def filter_empty_conv)

lemma sync_entry_stays_empty:
  assumes "entry t i = []"
  shows "entry (pendingOps (syncPendingOperations fetch t n)) i = []"
  using assms sync_ids_subset [of fetch t n] unfolding entry_empty_iff by blast

lemma drain_failing_operation:
  assumes d: "distinct (map op_id (rows t))" and m: "op \<in> set (rows t)"
    and f: "\<forall>n. isl (fst (processSingleOperation fetch n op))"
  shows "entry (pendingOps (syncPendingOperations fetch t n)) (op_id op) =
           (if retryCount op < MAX_RETRIES then [op\<lparr>retryCount := retryCount op + 1\<rparr>] else []) \<and>
         (\<exists>msg. \<lparr>operationId = op_id op, error = msg, retryable = (retryCount op < MAX_RETRIES)\<rparr>
                 \<in> set (errors (result (syncPendingOperations fetch t n)))) \<and>
         (retryCount op < MAX_RETRIES \<longrightarrow>
            RETRY_DELAY_MS * 2 ^ retryCount op \<in> set (waits (syncPendingOperations fetch t n))) \<and>
         filter (\<lambda>d. fst d = op_id op) (dispatched (syncPendingOperations fetch t n)) =
           [(op_id op, request_of op)]"
proof -
  let ?init = "\<lparr>pendingOps = t, net = n,
                  result = \<lparr>success = True, synced = 0, failed = 0, errors = []\<rparr>,
                  waits = [], dispatched = []\<rparr>"
  let ?pending = "getPendingOperations t"
  let ?i = "op_id op"
  from m have mem: "op \<in> set ?pending" by (simp add: pending_same_rows)
  from d have dist: "distinct (map op_id ?pending)" by (simp add: pending_ids_distinct)
  from mem obtain ys zs where parts: "?pending = ys @ op # zs"
    by (auto dest: split_list)
  from dist parts have before: "?i \<notin> op_id ` set ys" and after: "?i \<notin> op_id ` set zs"
    by auto
  define st1 where "st1 = foldl (sync_step fetch) ?init ys"
  define st2 where "st2 = sync_step fetch st1 op"
  define st3 where "st3 = foldl (sync_step fetch) st2 zs"
  have loop: "foldl (sync_step fetch) ?init ?pending = st3"
    by (simp add: parts st1_def st2_def st3_def)
  have final: "syncPendingOperations fetch t n =
      st3\<lparr>result := (result st3)\<lparr>success := (failed (result st3) = 0)\<rparr>\<rparr>"
    using parts by (simp add: sync_as_loop Let_def st1_def st2_def st3_def)
  have e1: "entry (pendingOps st1) ?i = [op]"
    using entry_loop_other [OF before, of fetch ?init] entry_of_member [OF d m]
    by (simp add: st1_def entry_def)
  from f obtain msg n' where fail: "processSingleOperation fetch (net st1) op = (Inl msg, n')"
    by (metis isl_def prod.collapse)
  have e2: "entry (pendingOps st2) ?i =
      (if retryCount op < MAX_RETRIES then [op\<lparr>retryCount := retryCount op + 1\<rparr>] else [])"
    by (simp add: st2_def entry_step_failed [OF fail] e1)
  have e3: "entry (pendingOps st3) ?i = entry (pendingOps st2) ?i"
    unfolding st3_def by (rule entry_loop_other [OF after])
  have err2: "\<lparr>operationId = ?i, error = msg, retryable = (retryCount op < MAX_RETRIES)\<rparr>
      \<in> set (errors (result st2))"
    by (simp add: st2_def sync_step_failed [OF fail])
  have err3: "\<lparr>operationId = ?i, error = msg, retryable = (retryCount op < MAX_RETRIES)\<rparr>
      \<in> set (errors (result st3))"
    using err2 loop_errors_grow [of st2 fetch zs] by (auto simp: st3_def)
  have w2: "retryCount op < MAX_RETRIES \<longrightarrow>
      RETRY_DELAY_MS * 2 ^ retryCount op \<in> set (waits st2)"
    by (simp add: st2_def sync_step_failed [OF fail])
  have w3: "retryCount op < MAX_RETRIES \<longrightarrow>
      RETRY_DELAY_MS * 2 ^ retryCount op \<in> set (waits st3)"
    using w2 loop_waits_grow [of st2 fetch zs] by (auto simp: st3_def)
  have "dispatched st3 = map (\<lambda>op. (op_id op, request_of op)) ?pending"
    using loop_dispatched [of fetch ?init ?pending] by (simp add: loop)
  then have "filter (\<lambda>d. fst d = ?i) (dispatched st3) =
      map (\<lambda>op. (op_id op, request_of op)) (filter (\<lambda>x. op_id x = ?i) ?pending)"
    by (simp add: filter_map comp_def)
  also have "\<dots> = [(?i, request_of op)]"
    by (simp add: entry_of_member [OF dist mem])
  finally have disp: "filter (\<lambda>d. fst d = ?i) (dispatched st3) = [(?i, request_of op)]" .
  from e2 e3 err3 w3 disp show ?thesis
    by (auto simp: final)
qed

lemma processSingleOperation_retryCount:
  "processSingleOperation fetch n (op\<lparr>retryCount := r\<rparr>) = processSingleOperation fetch n op"
proof -
  have "request_of (op\<lparr>retryCount := r\<rparr>) = request_of op"
    by (simp add: request_of_def with_passId_def split: op_type.splits)
  then show ?thesis
    by (simp add: processSingleOperation_def split: prod.splits sum.splits option.splits)
qed

lemma drains_entry_stays_empty:
  assumes "entry t i = []"
  shows "entry (fst (drains fetch k t n)) i = []"
  using assms
proof (induction k arbitrary: t n)
  case 0
  then show ?case by simp
next
  case (Suc k)
  show ?case
    by (simp add: Let_def Suc.IH [OF sync_entry_stays_empty [OF Suc.prems]])
qed

lemma drains_ids_distinct:
  assumes "distinct (map op_id (rows t))"
  shows "distinct (map op_id (rows (fst (drains fetch k t n))))"
  using assms
proof (induction k arbitrary: t n)
  case 0
  then show ?case by simp
next
  case (Suc k)
  show ?case
    by (simp add: Let_def Suc.IH [OF sync_ids_distinct [OF Suc.prems]])
qed

lemma drains_failing_operation:
  assumes "distinct (map op_id (rows t))" and "op \<in> set (rows t)"
    and "\<forall>n. isl (fst (processSingleOperation fetch n op))"
  shows "entry (fst (drains fetch k t n)) (op_id op) =
     (if k = 0 \<or> retryCount op + k \<le> MAX_RETRIES
      then [op\<lparr>retryCount := retryCount op + k\<rparr>] else [])"
  using assms
proof (induction k arbitrary: t n op)
  case 0
  then show ?case by (simp add: entry_def entry_of_member)
next
  case (Suc k)
  let ?st = "syncPendingOperations fetch t n"
  let ?op' = "op\<lparr>retryCount := retryCount op + 1\<rparr>"
  from drain_failing_operation [OF Suc.prems, of n]
  have e: "entry (pendingOps ?st) (op_id op) =
      (if retryCount op < MAX_RETRIES then [?op'] else [])"
    by simp
  have d: "distinct (map op_id (rows (pendingOps ?st)))"
    using Suc.prems(1) by (rule sync_ids_distinct)
  show ?case
  proof (cases "retryCount op < MAX_RETRIES")
    case True
    with e have "?op' \<in> set (entry (pendingOps ?st) (op_id op))" by simp
    then have m: "?op' \<in> set (rows (pendingOps ?st))" by (simp add: entry_def)
    have f: "\<forall>n. isl (fst (processSingleOperation fetch n ?op'))"
      using Suc.prems(3) by (simp add: processSingleOperation_retryCount)
    from Suc.IH [OF d m f, of "net ?st"] True show ?thesis
      by (simp add: Let_def)
  next
    case False
    with e have "entry (pendingOps ?st) (op_id op) = []" by simp
    from drains_entry_stays_empty [OF this, of fetch k "net ?st"] False show ?thesis
      by (simp add: Let_def)
  qed
qed

text \<open>
  C4, as amended.  \<open>MAX_RETRIES\<close> is 3 and counts retries, so an operation whose
  every attempt fails is attempted four times, once in each of four drains.  In a drain,
  an operation of the table whose dispatch fails is dispatched once and appears in
  \<open>errors\<close>, marked retryable exactly when its \<open>retryCount\<close> is below 3.  While
  \<open>retryCount < 3\<close> the failure increments \<open>retryCount\<close>, the drain waits
  \<open>1000 * 2 ^ retryCount\<close> milliseconds and the operation stays in the table for
  the next drain.  With \<open>retryCount = 3\<close> or more the failure removes it.  So after
  \<open>k\<close> drains an operation that started at \<open>retryCount\<close> \<open>r\<close> is in the table
  with \<open>retryCount\<close> \<open>r + k\<close> as long as \<open>r + k \<le> 3\<close>, and is gone after that.
\<close>

theorem failing_operation_retried_three_times:
  assumes "distinct (map op_id (rows t))" and "op \<in> set (rows t)"
    and "\<forall>n. isl (fst (processSingleOperation fetch n op))"
  shows "entry (pendingOps (syncPendingOperations fetch t n)) (op_id op) =
           (if retryCount op < MAX_RETRIES then [op\<lparr>retryCount := retryCount op + 1\<rparr>] else []) \<and>
         (\<exists>msg. \<lparr>operationId = op_id op, error = msg, retryable = (retryCount op < MAX_RETRIES)\<rparr>
                 \<in> set (errors (result (syncPendingOperations fetch t n)))) \<and>
         (retryCount op < MAX_RETRIES \<longrightarrow>
            RETRY_DELAY_MS * 2 ^ retryCount op \<in> set (waits (syncPendingOperations fetch t n))) \<and>
         filter (\<lambda>d. fst d = op_id op) (dispatched (syncPendingOperations fetch t n)) =
           [(op_id op, request_of op)] \<and>
         (\<forall>k. entry (fst (drains fetch k t n)) (op_id op) =
            (if k = 0 \<or> retryCount op + k \<le> MAX_RETRIES
             then [op\<lparr>retryCount := retryCount op + k\<rparr>] else [])) \<and>
         MAX_RETRIES = 3 \<and> RETRY_DELAY_MS = 1000"
  using drain_failing_operation [OF assms, of n] drains_failing_operation [OF assms, of _ n]
  by (simp add: MAX_RETRIES_def RETRY_DELAY_MS_def)

theorem failing_operation_retried_three_times_witness:
  "distinct (map op_id (rows table1)) \<and>
   update_queued \<in> set (rows table1) \<and>
   (\<forall>n. isl (fst (processSingleOperation dead_network n update_queued))) \<and>
   entry (fst (drains dead_network 3 table1 ())) (op_id update_queued) =
     [update_queued\<lparr>retryCount := 3\<rparr>] \<and>
   entry (fst (drains dead_network 4 table1 ())) (op_id update_queued) = [] \<and>
   1000 \<in> set (waits (syncPendingOperations dead_network table1 ()))"
proof -
  have r: "rows table1 = [update_queued]"
    by (simp add: table1_def queueOperation_def empty_table_def visitor_update_def
          update_queued_def)
  have d: "distinct (map op_id (rows table1))" by (simp add: r)
  have m: "update_queued \<in> set (rows table1)" by (simp add: r)
  have f: "\<forall>n. isl (fst (processSingleOperation dead_network n update_queued))"
    by (simp add: processSingleOperation_def dead_network_def)
  have c: "retryCount update_queued = 0"
    by (simp add: visitor_update_def update_queued_def)
  note T = failing_operation_retried_three_times [OF d m f, of "()"]
  from T have k: "entry (fst (drains dead_network k table1 ())) (op_id update_queued) =
            (if k = 0 \<or> k \<le> MAX_RETRIES then [update_queued\<lparr>retryCount := k\<rparr>] else [])" for k
    by (simp add: c)
  from T have w: "RETRY_DELAY_MS * 2 ^ 0 \<in> set (waits (syncPendingOperations dead_network table1 ()))"
    by (simp add: c MAX_RETRIES_def)
  have "entry (fst (drains dead_network 3 table1 ())) (op_id update_queued) =
      [update_queued\<lparr>retryCount := 3\<rparr>]"
    and "entry (fst (drains dead_network 4 table1 ())) (op_id update_queued) = []"
    by (simp_all add: k MAX_RETRIES_def)
  moreover from w have "1000 \<in> set (waits (syncPendingOperations dead_network table1 ()))"
    by (simp add: RETRY_DELAY_MS_def)
  ultimately show ?thesis using d m f by (intro conjI)
qed

text \<open>
  C4 as stated fails: on a network where every request fails, the operation queued with
  \<open>retryCount\<close> 0 is still in the table after three drains, with \<open>retryCount\<close> 3;
  the fourth drain dispatches it again, reports it as not retryable and removes it.
\<close>

theorem fourth_attempt_after_three_failures:
  "map retryCount (rows (fst (drains dead_network 3 table1 ()))) = [3] \<and>
   map fst (dispatched (syncPendingOperations dead_network
              (fst (drains dead_network 3 table1 ())) ())) = [1] \<and>
   map retryable (errors (result (syncPendingOperations dead_network
              (fst (drains dead_network 3 table1 ())) ()))) = [False] \<and>
   map op_id (rows (fst (drains dead_network 4 table1 ()))) = []"
  by code_simp

subsection \<open>An operation on a pass the server does not have\<close>

lemma PATCH_missing:
  assumes "\<not> falsy (b ''passId'')" and "findOne db (b ''passId'') = None"
    and "b ''status'' = Some (JStr ''used'') \<or> b ''status'' = Some (JStr ''unused'')"
  shows "PATCH True now db b =
     (\<lparr>status = 404, error_field = Some ''Pass not found'', pass_field = None\<rparr>, db)"
  using assms by (auto simp: PATCH_def)

lemma not_found_dispatch:
  assumes "answers_not_found w op"
  shows "processSingleOperation (server_fetch other) w op = (Inl ''Pass not found'', w)"
proof -
  from assms have on: "online w" and p: "\<not> falsy (with_passId op ''passId'')"
    and m: "findOne (passes w) (with_passId op ''passId'') = None"
    by (simp_all add: answers_not_found_def)
  from assms consider (pass) "type op = UpdatePass"
    | (status) "type op = UpdateStatus" "authenticated w"
        "with_passId op ''status'' = Some (JStr ''used'') \<or>
         with_passId op ''status'' = Some (JStr ''unused'')"
    by (auto simp: answers_not_found_def)
  then show ?thesis
  proof cases
    case pass
    with on p m show ?thesis
      by (simp add: processSingleOperation_def server_fetch_def request_of_def
            PUT_missing [of "with_passId op" "passes w"] ok_def)
  next
    case status
    with on p m show ?thesis
      by (simp add: processSingleOperation_def server_fetch_def request_of_def
            PATCH_missing [of "with_passId op" "passes w"] ok_def)
  qed
qed

text \<open>
  C7, as amended.  The sync engine does not classify failures.  An operation whose target
  pass does not exist server-side is answered 404, "Pass not found", and is handled as
  any failed operation: it is reported in \<open>errors\<close>; while \<open>retryCount < 3\<close> it
  stays in the table with \<open>retryCount\<close> incremented, after the backoff delay, and is
  marked retryable; it is removed only once \<open>retryCount\<close> has reached 3.
\<close>

theorem missing_pass_operation_is_retried:
  assumes "answers_not_found (net st) op"
  shows "sync_step (server_fetch other) st op =
     st\<lparr>dispatched := dispatched st @ [(op_id op, request_of op)],
        result := (result st)
          \<lparr>failed := failed (result st) + 1,
           errors := errors (result st) @
             [\<lparr>operationId = op_id op, error = ''Pass not found'',
               retryable = (retryCount op < MAX_RETRIES)\<rparr>]\<rparr>,
        pendingOps :=
          (if retryCount op < MAX_RETRIES
           then updatePendingOperationRetryCount (pendingOps st) (op_id op) (retryCount op + 1)
           else removePendingOperation (pendingOps st) (op_id op)),
        waits :=
          (if retryCount op < MAX_RETRIES
           then waits st @ [RETRY_DELAY_MS * 2 ^ retryCount op] else waits st)\<rparr>"
  by (simp add: sync_step_failed [OF not_found_dispatch [OF assms]])

theorem missing_pass_operation_is_retried_witness:
  "answers_not_found (net state_missing) update_missing \<and>
   map retryCount
     (rows (pendingOps (sync_step (server_fetch no_routes) state_missing update_missing))) = [1] \<and>
   waits (sync_step (server_fetch no_routes) state_missing update_missing) = [1000]"
proof -
  have h: "answers_not_found (net state_missing) update_missing"
    by (simp add: answers_not_found_def state_missing_def world0_def passes0_def
          visitor_update_def update_missing_def with_passId_def falsy_def findOne_def)
  have r: "rows (pendingOps state_missing) = [update_missing]"
    by (simp add: state_missing_def table_missing_def queueOperation_def empty_table_def
          visitor_update_def update_missing_def)
  have c: "retryCount update_missing = 0"
    by (simp add: visitor_update_def update_missing_def)
  have w: "waits state_missing = []" by (simp add: state_missing_def)
  note T = missing_pass_operation_is_retried [OF h, of no_routes]
  have "map retryCount
     (rows (pendingOps (sync_step (server_fetch no_routes) state_missing update_missing))) = [1]"
    by (simp add: T c r MAX_RETRIES_def updatePendingOperationRetryCount_def)
  moreover have "waits (sync_step (server_fetch no_routes) state_missing update_missing) = [1000]"
    by (simp add: T c w MAX_RETRIES_def RETRY_DELAY_MS_def)
  ultimately show ?thesis using h by (intro conjI)
qed

text \<open>
  C7 as stated fails: a visitor update of the pass VIS-9999, which the server does not
  have, queued with \<open>retryCount\<close> 0, is still in the table after the drain, with
  \<open>retryCount\<close> 1, after a wait of 1000 milliseconds, and is reported as retryable.
\<close>

theorem missing_pass_operation_stays_queued:
  "map retryCount
     (rows (pendingOps (syncPendingOperations (server_fetch no_routes) table_missing world0))) = [1] \<and>
   waits (syncPendingOperations (server_fetch no_routes) table_missing world0) = [1000] \<and>
   map error (errors (result (syncPendingOperations (server_fetch no_routes) table_missing world0))) =
     [''Pass not found''] \<and>
   map retryable
     (errors (result (syncPendingOperations (server_fetch no_routes) table_missing world0))) = [True]"
  by code_simp

subsection \<open>What the sync engine sends, and what the endpoint of an \<open>update-pass\<close> does with it\<close>

text \<open>The request for an operation of each type.\<close>

lemma request_by_type:
  "(type op = UpdatePass \<longrightarrow>
      request_of op =
        \<lparr>endpoint = ''/api/passes/update'', http_method = ''PUT'', body = with_passId op\<rparr>) \<and>
   (type op = UpdateStatus \<longrightarrow>
      request_of op =
        \<lparr>endpoint = ''/api/passes/status'', http_method = ''PATCH'', body = with_passId op\<rparr>) \<and>
   (type op = CreatePass \<longrightarrow>
      request_of op =
        \<lparr>endpoint = ''/api/passes/create-batch'', http_method = ''POST'', body = payload op\<rparr>) \<and>
   (type op = CreateEvent \<longrightarrow>
      request_of op =
        \<lparr>endpoint = ''/api/events/create'', http_method = ''POST'', body = payload op\<rparr>)"
  by (simp add: request_of_def)

text \<open>The request is the same whatever the operation's \<open>createdAt\<close> and \<open>eventId\<close>
  are: its body is the payload, with the operation's \<open>passId\<close> for the two updates when
  the payload has none.\<close>

lemma request_without_createdAt:
  "request_of (op\<lparr>createdAt := c\<rparr>) = request_of op \<and>
   request_of (op\<lparr>eventId := e\<rparr>) = request_of op \<and>
   (\<forall>k. k \<noteq> ''passId'' \<longrightarrow> with_passId op k = payload op k) \<and>
   with_passId op ''passId'' =
     (case payload op ''passId'' of Some v \<Rightarrow> Some v | None \<Rightarrow> map_option JStr (passId op))"
  by (simp add: request_of_def with_passId_def map_add_def split: op_type.splits option.splits)

text \<open>A drain sends the request of every operation pending at its start, in the order
  of the list.\<close>

lemma every_pending_operation_is_dispatched:
  "dispatched (syncPendingOperations fetch t n) =
     map (\<lambda>op. (op_id op, request_of op)) (getPendingOperations t)"
proof (cases "getPendingOperations t = []")
  case True
  then show ?thesis by (simp add: sync_nothing_pending)
next
  case False
  then show ?thesis by (simp add: sync_as_loop Let_def loop_dispatched)
qed

text \<open>The endpoint of an \<open>update-pass\<close>, at a pass the collection has: it writes the
  four visitor fields and the server's time whatever the pass's \<open>updatedAt\<close> is, and a
  \<open>createdAt\<close> in the request changes nothing.\<close>

lemma PUT_compares_no_timestamps:
  assumes "b ''passId'' = Some (JStr p)" and "p \<noteq> []" and "db p = Some cur"
  shows "snd (PUT now db b) =
           db(p \<mapsto> cur ++
                [''name'' \<mapsto> stored (b ''name''), ''mobile'' \<mapsto> stored (b ''mobile''),
                 ''city'' \<mapsto> stored (b ''city''), ''age'' \<mapsto> stored (b ''age''),
                 ''updatedAt'' \<mapsto> JDate now]) \<and>
         status (fst (PUT now db b)) = 200 \<and>
         snd (PUT now db (b(''createdAt'' \<mapsto> c))) = snd (PUT now db b)"
proof -
  have k: "(b(''createdAt'' \<mapsto> c)) ''passId'' = Some (JStr p)"
    using assms(1) by simp
  have x: "PUT now db b =
     (let new = cur ++
            [''name'' \<mapsto> stored (b ''name''), ''mobile'' \<mapsto> stored (b ''mobile''),
             ''city'' \<mapsto> stored (b ''city''), ''age'' \<mapsto> stored (b ''age''),
             ''updatedAt'' \<mapsto> JDate now]
      in (\<lparr>status = 200, error_field = None,
           pass_field =
             Some ((new |` {''status'', ''name'', ''mobile'', ''city'', ''age'', ''updatedAt''})
                     (''passId'' \<mapsto> JStr p))\<rparr>,
          db(p \<mapsto> new)))"
    using assms by (rule PUT_found)
  have y: "PUT now db (b(''createdAt'' \<mapsto> c)) =
     (let new = cur ++
            [''name'' \<mapsto> stored ((b(''createdAt'' \<mapsto> c)) ''name''),
             ''mobile'' \<mapsto> stored ((b(''createdAt'' \<mapsto> c)) ''mobile''),
             ''city'' \<mapsto> stored ((b(''createdAt'' \<mapsto> c)) ''city''),
             ''age'' \<mapsto> stored ((b(''createdAt'' \<mapsto> c)) ''age''),
             ''updatedAt'' \<mapsto> JDate now]
      in (\<lparr>status = 200, error_field = None,
           pass_field =
             Some ((new |` {''status'', ''name'', ''mobile'', ''city'', ''age'', ''updatedAt''})
                     (''passId'' \<mapsto> JStr p))\<rparr>,
          db(p \<mapsto> new)))"
    using k assms(2) assms(3) by (rule PUT_found)
  show ?thesis
    unfolding x y by (simp add: Let_def)
qed

text \<open>The table of the examples holds the visitor update of the examples, under the key
  1.\<close>

lemma table1_holds_update_queued: "getPendingOperations table1 = [update_queued]"
  by (simp add: getPendingOperations_def table1_def queueOperation_def empty_table_def
        update_queued_def visitor_update_def)

text \<open>
  C3.  The queue holds one visitor update, created at 50, of a pass whose \<open>updatedAt\<close>
  is 100 and whose name is Asha.  A drain sends it to \<open>PUT /api/passes/update\<close> with
  its \<open>passId\<close> and its name and without its \<open>createdAt\<close>; the endpoint applies it:
  the name becomes Ravi, \<open>updatedAt\<close> becomes the server's time, 500, and the drain
  counts the operation as synced.  The batch route, given the same operation, counts it as
  processed and leaves the name and \<open>updatedAt\<close> as they were.
\<close>

theorem stale_update_pass_is_applied_by_sync:
  "getPendingOperations table1 = [update_queued] \<and>
   dispatched (syncPendingOperations (server_fetch no_routes) table1 world0) =
     [(1, request_of update_queued)] \<and>
   type update_queued = UpdatePass \<and>
   createdAt update_queued = 50 \<and>
   field_of passes0 ''VIS-0001'' ''updatedAt'' = Some (JDate 100) \<and>
   field_of passes0 ''VIS-0001'' ''name'' = Some (JStr ''Asha'') \<and>
   endpoint (request_of update_queued) = ''/api/passes/update'' \<and>
   http_method (request_of update_queued) = ''PUT'' \<and>
   body (request_of update_queued) ''passId'' = Some (JStr ''VIS-0001'') \<and>
   body (request_of update_queued) ''name'' = Some (JStr ''Ravi'') \<and>
   body (request_of update_queued) ''createdAt'' = None \<and>
   field_of (passes (net (syncPendingOperations (server_fetch no_routes) table1 world0)))
     ''VIS-0001'' ''name'' = Some (JStr ''Ravi'') \<and>
   field_of (passes (net (syncPendingOperations (server_fetch no_routes) table1 world0)))
     ''VIS-0001'' ''updatedAt'' = Some (JDate 500) \<and>
   synced (result (syncPendingOperations (server_fetch no_routes) table1 world0)) = 1 \<and>
   field_of (fst (POST parse_example passes0 [posted update_queued])) ''VIS-0001'' ''name'' =
     Some (JStr ''Asha'') \<and>
   field_of (fst (POST parse_example passes0 [posted update_queued])) ''VIS-0001'' ''updatedAt'' =
     Some (JDate 100) \<and>
   processed (snd (POST parse_example passes0 [posted update_queued])) = 1"
proof -
  have queued: "getPendingOperations table1 = [update_queued]"
    by (rule table1_holds_update_queued)
  have sent: "dispatched (syncPendingOperations (server_fetch no_routes) table1 world0) =
      [(1, request_of update_queued)]"
    by (simp add: every_pending_operation_is_dispatched table1_holds_update_queued
          update_queued_def visitor_update_def)
  have outcome:
    "type update_queued = UpdatePass \<and>
     createdAt update_queued = 50 \<and>
     field_of passes0 ''VIS-0001'' ''updatedAt'' = Some (JDate 100) \<and>
     field_of passes0 ''VIS-0001'' ''name'' = Some (JStr ''Asha'') \<and>
     endpoint (request_of update_queued) = ''/api/passes/update'' \<and>
     http_method (request_of update_queued) = ''PUT'' \<and>
     body (request_of update_queued) ''passId'' = Some (JStr ''VIS-0001'') \<and>
     body (request_of update_queued) ''name'' = Some (JStr ''Ravi'') \<and>
     body (request_of update_queued) ''createdAt'' = None \<and>
     field_of (passes (net (syncPendingOperations (server_fetch no_routes) table1 world0)))
       ''VIS-0001'' ''name'' = Some (JStr ''Ravi'') \<and>
     field_of (passes (net (syncPendingOperations (server_fetch no_routes) table1 world0)))
       ''VIS-0001'' ''updatedAt'' = Some (JDate 500) \<and>
     synced (result (syncPendingOperations (server_fetch no_routes) table1 world0)) = 1 \<and>
     field_of (fst (POST parse_example passes0 [posted update_queued])) ''VIS-0001'' ''name'' =
       Some (JStr ''Asha'') \<and>
     field_of (fst (POST parse_example passes0 [posted update_queued])) ''VIS-0001'' ''updatedAt'' =
       Some (JDate 100) \<and>
     processed (snd (POST parse_example passes0 [posted update_queued])) = 1"
    by code_simp
  show ?thesis
    by (rule conjI [OF queued conjI [OF sent outcome]])
qed

subsection \<open>A manual sync while offline\<close>

text \<open>Offline, every \<open>fetch\<close> of a drain rejects: each operation is dispatched, counted
  as failed and listed in the errors, and the world is as it was.\<close>

lemma offline_step:
  assumes "\<not> online (net st)"
  shows "sync_step (server_fetch other) st op =
     st\<lparr>dispatched := dispatched st @ [(op_id op, request_of op)],
        result := (result st)
          \<lparr>failed := failed (result st) + 1,
           errors := errors (result st) @
             [\<lparr>operationId = op_id op, error = ''Failed to fetch'',
               retryable = (retryCount op < MAX_RETRIES)\<rparr>]\<rparr>,
        pendingOps :=
          (if retryCount op < MAX_RETRIES
           then updatePendingOperationRetryCount (pendingOps st) (op_id op) (retryCount op + 1)
           else removePendingOperation (pendingOps st) (op_id op)),
        waits :=
          (if retryCount op < MAX_RETRIES
           then waits st @ [RETRY_DELAY_MS * 2 ^ retryCount op] else waits st)\<rparr>"
proof -
  have "processSingleOperation (server_fetch other) (net st) op = (Inl ''Failed to fetch'', net st)"
    using assms by (simp add: processSingleOperation_def server_fetch_def)
  from sync_step_failed [OF this] show ?thesis by simp
qed

lemma offline_loop:
  assumes "\<not> online (net st)"
  shows "net (foldl (sync_step (server_fetch other)) st ops) = net st \<and>
         synced (result (foldl (sync_step (server_fetch other)) st ops)) = synced (result st) \<and>
         failed (result (foldl (sync_step (server_fetch other)) st ops)) =
           failed (result st) + length ops \<and>
         errors (result (foldl (sync_step (server_fetch other)) st ops)) =
           errors (result st) @
             map (\<lambda>op. \<lparr>operationId = op_id op, error = ''Failed to fetch'',
                         retryable = (retryCount op < MAX_RETRIES)\<rparr>) ops"
  using assms
proof (induction ops arbitrary: st)
  case Nil
  show ?case by simp
next
  case (Cons op ops)
  let ?st = "sync_step (server_fetch other) st op"
  have s: "net ?st = net st"
    and r: "synced (result ?st) = synced (result st)"
           "failed (result ?st) = failed (result st) + 1"
           "errors (result ?st) = errors (result st) @
             [\<lparr>operationId = op_id op, error = ''Failed to fetch'',
               retryable = (retryCount op < MAX_RETRIES)\<rparr>]"
    by (simp_all add: offline_step [OF Cons.prems])
  from Cons.prems s have "\<not> online (net ?st)" by simp
  from Cons.IH [OF this] s r show ?case by simp
qed

lemma offline_sync:
  assumes "\<not> online w"
  shows "net (syncPendingOperations (server_fetch other) t w) = w \<and>
         synced (result (syncPendingOperations (server_fetch other) t w)) = 0 \<and>
         failed (result (syncPendingOperations (server_fetch other) t w)) =
           length (getPendingOperations t) \<and>
         errors (result (syncPendingOperations (server_fetch other) t w)) =
           map (\<lambda>op. \<lparr>operationId = op_id op, error = ''Failed to fetch'',
                       retryable = (retryCount op < MAX_RETRIES)\<rparr>) (getPendingOperations t)"
proof (cases "getPendingOperations t = []")
  case True
  then show ?thesis by (simp add: sync_nothing_pending)
next
  case False
  let ?init = "\<lparr>pendingOps = t, net = w,
                 result = \<lparr>success = True, synced = 0, failed = 0, errors = []\<rparr>,
                 waits = [], dispatched = []\<rparr>"
  have "\<not> online (net ?init)" using assms by simp
  from offline_loop [OF this, of other "getPendingOperations t"] False
  show ?thesis by (simp add: sync_as_loop Let_def)
qed

text \<open>The table of the examples has one pending operation, whose key is 1.\<close>

lemma table1_pending: "map op_id (getPendingOperations table1) = [1]"
  by code_simp

text \<open>
  C8, as amended.  While the device is offline, \<open>triggerManualSync\<close>, which is
  \<open>syncPendingOperations\<close>, checks nothing: it dispatches every pending operation, each
  \<open>fetch\<close> rejects, and the result counts every operation as failed, none as synced,
  with one error "Failed to fetch" for each, retryable while its \<open>retryCount\<close> is below
  3.  The check is in the dashboard.  Its \<open>offline\<close> flag is set when the component
  mounts on the offline device and by the browser's offline event, and cleared by the
  online event.  While the flag is set the "Sync Now" button is not rendered, so a click
  calls nothing, sends nothing and shows no message; the handler itself, called with the
  flag set, sends nothing and shows "Cannot sync while offline".  While the flag is clear
  and the button is enabled, a click sends the request of every pending operation,
  although the device is offline.
\<close>

theorem manual_sync_guard_is_in_the_dashboard:
  assumes "\<not> isOnline w"
  shows "triggerManualSync (server_fetch other) t w =
           syncPendingOperations (server_fetch other) t w \<and>
         dispatched (triggerManualSync (server_fetch other) t w) =
           map (\<lambda>op. (op_id op, request_of op)) (getPendingOperations t) \<and>
         net (triggerManualSync (server_fetch other) t w) = w \<and>
         synced (result (triggerManualSync (server_fetch other) t w)) = 0 \<and>
         failed (result (triggerManualSync (server_fetch other) t w)) =
           length (getPendingOperations t) \<and>
         errors (result (triggerManualSync (server_fetch other) t w)) =
           map (\<lambda>op. \<lparr>operationId = op_id op, error = ''Failed to fetch'',
                       retryable = (retryCount op < MAX_RETRIES)\<rparr>) (getPendingOperations t) \<and>
         offline (mount w t) \<and>
         offline (handleOffline ui) \<and>
         \<not> offline (handleOnline ui t) \<and>
         (offline ui \<longrightarrow>
            \<not> sync_button_enabled ui \<and>
            click_sync_now (server_fetch other) ui t w = (ui, t, w, []) \<and>
            handleManualSync (server_fetch other) ui t w =
              (ui\<lparr>syncMessage := Some ''Cannot sync while offline''\<rparr>, t, w, [])) \<and>
         (sync_button_enabled ui \<longrightarrow>
            snd (snd (snd (click_sync_now (server_fetch other) ui t w))) =
              map (\<lambda>op. (op_id op, request_of op)) (getPendingOperations t))"
proof -
  from assms have off: "\<not> online w" by (simp add: isOnline_def)
  have a: "triggerManualSync (server_fetch other) t w =
      syncPendingOperations (server_fetch other) t w"
    by (simp add: triggerManualSync_def)
  have b: "dispatched (triggerManualSync (server_fetch other) t w) =
      map (\<lambda>op. (op_id op, request_of op)) (getPendingOperations t)"
    by (simp only: a every_pending_operation_is_dispatched)
  note c = offline_sync [OF off, of other t, folded a]
  have d: "offline (mount w t)" "offline (handleOffline ui)" "\<not> offline (handleOnline ui t)"
    using assms by (simp_all add: mount_def handleOffline_def handleOnline_def)
  have e: "offline ui \<longrightarrow>
            \<not> sync_button_enabled ui \<and>
            click_sync_now (server_fetch other) ui t w = (ui, t, w, []) \<and>
            handleManualSync (server_fetch other) ui t w =
              (ui\<lparr>syncMessage := Some ''Cannot sync while offline''\<rparr>, t, w, [])"
    by (simp add: sync_button_enabled_def click_sync_now_def handleManualSync_def)
  have f: "sync_button_enabled ui \<longrightarrow>
            snd (snd (snd (click_sync_now (server_fetch other) ui t w))) =
              map (\<lambda>op. (op_id op, request_of op)) (getPendingOperations t)"
    using b by (simp add: sync_button_enabled_def click_sync_now_def handleManualSync_def Let_def)
  from a b c d e f show ?thesis by (intro conjI) simp_all
qed

theorem manual_sync_guard_is_in_the_dashboard_witness:
  "\<not> isOnline world_offline \<and>
   offline (mount world_offline table1) \<and>
   click_sync_now (server_fetch no_routes) (mount world_offline table1) table1 world_offline =
     (mount world_offline table1, table1, world_offline, []) \<and>
   syncMessage (mount world_offline table1) = None \<and>
   handleManualSync (server_fetch no_routes) (mount world_offline table1) table1 world_offline =
     ((mount world_offline table1)\<lparr>syncMessage := Some ''Cannot sync while offline''\<rparr>,
      table1, world_offline, []) \<and>
   sync_button_enabled (mount world0 table1) \<and>
   map fst (snd (snd (snd (click_sync_now (server_fetch no_routes) (mount world0 table1)
                             table1 world_offline)))) = [1] \<and>
   map fst (dispatched (triggerManualSync (server_fetch no_routes) table1 world_offline)) = [1] \<and>
   synced (result (triggerManualSync (server_fetch no_routes) table1 world_offline)) = 0 \<and>
   failed (result (triggerManualSync (server_fetch no_routes) table1 world_offline)) = 1"
proof -
  have h: "\<not> isOnline world_offline"
    by (simp add: isOnline_def world_offline_def world0_def)
  have len: "length (getPendingOperations table1) = 1"
    using arg_cong [OF table1_pending, of length] by simp
  have "map fst (map (\<lambda>op. (op_id op, request_of op)) (getPendingOperations table1)) =
      map op_id (getPendingOperations table1)"
    by (simp add: comp_def)
  then have ids:
    "map fst (map (\<lambda>op. (op_id op, request_of op)) (getPendingOperations table1)) = [1]"
    by (simp only: table1_pending)
  note A = manual_sync_guard_is_in_the_dashboard
    [OF h, where other = no_routes and t = table1 and ui = "mount world_offline table1"]
  note B = manual_sync_guard_is_in_the_dashboard
    [OF h, where other = no_routes and t = table1 and ui = "mount world0 table1"]
  from A have flag: "offline (mount world_offline table1)" by simp
  from A flag
  have click: "click_sync_now (server_fetch no_routes) (mount world_offline table1) table1
        world_offline = (mount world_offline table1, table1, world_offline, [])"
    and handler: "handleManualSync (server_fetch no_routes) (mount world_offline table1) table1
        world_offline =
     ((mount world_offline table1)\<lparr>syncMessage := Some ''Cannot sync while offline''\<rparr>,
      table1, world_offline, [])"
    by blast+
  have quiet: "syncMessage (mount world_offline table1) = None"
    by (simp add: mount_def)
  have enabled: "sync_button_enabled (mount world0 table1)"
    using len
    by (simp add: sync_button_enabled_def mount_def isOnline_def world0_def
          getPendingOperationsCount_def getPendingOperations_def)
  from B enabled
  have "snd (snd (snd (click_sync_now (server_fetch no_routes) (mount world0 table1)
                             table1 world_offline))) =
      map (\<lambda>op. (op_id op, request_of op)) (getPendingOperations table1)"
    by blast
  then have stale: "map fst (snd (snd (snd (click_sync_now (server_fetch no_routes)
      (mount world0 table1) table1 world_offline)))) = [1]"
    by (simp only: ids)
  from A
  have d: "dispatched (triggerManualSync (server_fetch no_routes) table1 world_offline) =
      map (\<lambda>op. (op_id op, request_of op)) (getPendingOperations table1)"
    by (elim conjE)
  from A
  have s: "synced (result (triggerManualSync (server_fetch no_routes) table1
        world_offline)) = 0"
    by (elim conjE)
  from A
  have f: "failed (result (triggerManualSync (server_fetch no_routes) table1 world_offline)) =
      length (getPendingOperations table1)"
    by (elim conjE)
  have sent: "map fst (dispatched (triggerManualSync (server_fetch no_routes) table1
      world_offline)) = [1]"
    unfolding d by (rule ids)
  have counts: "synced (result (triggerManualSync (server_fetch no_routes) table1
        world_offline)) = 0"
      "failed (result (triggerManualSync (server_fetch no_routes) table1 world_offline)) = 1"
    using s f len by simp_all
  from h flag click quiet handler enabled stale sent counts show ?thesis by (intro conjI)
qed

text \<open>
  C8 as stated fails for \<open>triggerManualSync\<close>: called while the device is offline
  with one operation pending, it dispatches the operation, whose \<open>fetch\<close> fails, and
  returns a result with one failed operation and the error "Failed to fetch".
\<close>

theorem triggerManualSync_offline_sends_requests:
  "\<not> isOnline world_offline \<and>
   map fst (dispatched (triggerManualSync (server_fetch no_routes) table1 world_offline)) = [1] \<and>
   map error (errors (result (triggerManualSync (server_fetch no_routes) table1 world_offline))) =
     [''Failed to fetch''] \<and>
   failed (result (triggerManualSync (server_fetch no_routes) table1 world_offline)) = 1"
  by code_simp

end
